theory Spec2Isabelle
  imports Complex_Main "HOL-Library.AList"
begin

section \<open>Data model of the tuner\<close>

text \<open>
  The program works on nested Python dictionaries read from YAML files. A dictionary is
  modelled as an association list in insertion order: \<open>map_of d k\<close> is the lookup,
  \<open>map fst d\<close> is the order in which \<open>d.keys()\<close> iterates, and \<open>AList.update\<close> is the
  assignment \<open>d[k] = v\<close> (replace in place, or append a new key at the end). The keys of a
  Python dictionary are pairwise different; where a property depends on that, it is the
  hypothesis \<open>distinct (map fst d)\<close>.

  Python floats are modelled as real numbers (exact arithmetic, no rounding). The
  float value the source tests for, NaN, is modelled explicitly in the flux tables,
  where \<open>math.isnan\<close> is applied. The infinities and the NaN that numpy's division by
  zero produces are modelled in the type \<open>npfloat\<close> of the penalty term and the score.
\<close>

type_synonym 'v dict = "(string \<times> 'v) list"

datatype pyfloat = Num real | NaN

text \<open>Float subtraction: NaN on either side gives NaN.\<close>

fun pysub :: "pyfloat \<Rightarrow> pyfloat \<Rightarrow> pyfloat" where
  "pysub (Num a) (Num b) = Num (a - b)"
| "pysub _ _ = NaN"

text \<open>The exceptions the modelled code can raise.\<close>

datatype py_error = KeyError | IndexError | AttributeError | SystemExit

text \<open>Sequencing of computations that may raise: the first exception wins.\<close>

fun ebind :: "py_error + 'a \<Rightarrow> ('a \<Rightarrow> py_error + 'b) \<Rightarrow> py_error + 'b" where
  "ebind (Inl e) f = Inl e"
| "ebind (Inr x) f = f x"

text \<open>
  The change vector is a numpy array in every call the program makes (\<open>np.zeros\<close> at
  line 235, the iterates of the solver, \<open>result.x\<close>), so an expression that has one of its
  entries as an operand is evaluated in numpy's float64 arithmetic: a division by zero
  raises nothing, it gives an infinity or NaN (with a RuntimeWarning). \<open>npfloat\<close> holds
  the results of that arithmetic: a real number, plus or minus infinity, or NaN.
\<close>

datatype npfloat = Fin real | PosInf | NegInf | NpNaN

definition is_fin :: "npfloat \<Rightarrow> bool" where
  "is_fin x = (case x of Fin _ \<Rightarrow> True | _ \<Rightarrow> False)"

text \<open>
  \<open>a / b\<close> for finite operands: \<open>0 / 0\<close> is NaN, any other division by zero is the
  infinity with the sign of \<open>a\<close> (the zero divisor read from a file is \<open>0\<close> or \<open>0.0\<close>).
\<close>

definition np_div :: "real \<Rightarrow> real \<Rightarrow> npfloat" where
  "np_div a b =
     (if b = 0 then (if a = 0 then NpNaN else if 0 < a then PosInf else NegInf)
      else Fin (a / b))"

text \<open>\<open>x ** 2\<close>\<close>

fun np_square :: "npfloat \<Rightarrow> npfloat" where
  "np_square (Fin a) = Fin (a\<^sup>2)"
| "np_square PosInf = PosInf"
| "np_square NegInf = PosInf"
| "np_square NpNaN = NpNaN"

text \<open>\<open>x + y\<close>: NaN absorbs, infinities of opposite signs give NaN.\<close>

fun np_add :: "npfloat \<Rightarrow> npfloat \<Rightarrow> npfloat" where
  "np_add (Fin a) (Fin b) = Fin (a + b)"
| "np_add NpNaN y = NpNaN"
| "np_add x NpNaN = NpNaN"
| "np_add PosInf NegInf = NpNaN"
| "np_add NegInf PosInf = NpNaN"
| "np_add PosInf y = PosInf"
| "np_add x PosInf = PosInf"
| "np_add NegInf y = NegInf"
| "np_add x NegInf = NegInf"

text \<open>\<open>x * p\<close> for a finite \<open>p\<close>: an infinity times zero is NaN.\<close>

fun np_scale :: "npfloat \<Rightarrow> real \<Rightarrow> npfloat" where
  "np_scale (Fin a) p = Fin (a * p)"
| "np_scale NpNaN p = NpNaN"
| "np_scale PosInf p = (if p = 0 then NpNaN else if 0 < p then PosInf else NegInf)"
| "np_scale NegInf p = (if p = 0 then NpNaN else if 0 < p then NegInf else PosInf)"

text \<open>\<open>d[k]\<close>: KeyError when the key is missing.\<close>

definition lookup :: "'v dict \<Rightarrow> string \<Rightarrow> py_error + 'v" where
  "lookup d k = (case map_of d k of None \<Rightarrow> Inl KeyError | Some v \<Rightarrow> Inr v)"

text \<open>\<open>xs[i]\<close> for a non-negative index: IndexError when out of range.\<close>

definition index :: "'a list \<Rightarrow> nat \<Rightarrow> py_error + 'a" where
  "index xs i = (if i < length xs then Inr (xs ! i) else Inl IndexError)"

text \<open>
  A loop with an accumulator whose body may raise: the loop stops at the first
  exception.
\<close>

fun fold_err :: "('a \<Rightarrow> 'b \<Rightarrow> py_error + 'a) \<Rightarrow> 'a \<Rightarrow> 'b list \<Rightarrow> py_error + 'a" where
  "fold_err f acc [] = Inr acc"
| "fold_err f acc (x # xs) =
     (case f acc x of Inl e \<Rightarrow> Inl e | Inr acc' \<Rightarrow> fold_err f acc' xs)"

text \<open>The three-level lookup variable / season / region of a flux table.\<close>

definition lookup3 :: "'v dict dict dict \<Rightarrow> string \<Rightarrow> string \<Rightarrow> string \<Rightarrow> 'v option" where
  "lookup3 d k1 k2 k3 =
     (case map_of d k1 of None \<Rightarrow> None
      | Some d1 \<Rightarrow> (case map_of d1 k2 of None \<Rightarrow> None | Some d2 \<Rightarrow> map_of d2 k3))"


section \<open>Bias model: \<open>compute_difference\<close>\<close>

text \<open>
  \<^verbatim>\<open>
  def compute_difference(base, reference):
      difference = {}
      for key, value in base.items():
          difference[key] = {}
          for subkey, subvalue in value.items():
              if key in reference and subkey in reference[key]:
                  difference[key][subkey] = {}
                  for subsubkey, subsubvalue in subvalue.items():
                      if subsubkey in reference[key][subkey]:
                          difference[key][subkey][subsubkey] =
                              subsubvalue - reference[key][subkey][subsubkey]
      return difference
  \<close>
  Every key of \<open>base\<close> gets an entry (possibly empty); a season gets an entry only when
  the reference has the variable and the season; a region only when the reference has
  it too. The keys iterated over are those of one dictionary, hence new at each
  assignment, so each loop is a map or a filtering map over the items. No step can raise.
\<close>

definition diff_regions :: "pyfloat dict \<Rightarrow> pyfloat dict \<Rightarrow> pyfloat dict" where
  "diff_regions subvalue refregions =
     List.map_filter (\<lambda>(subsubkey, subsubvalue).
        case map_of refregions subsubkey of
          None \<Rightarrow> None
        | Some r \<Rightarrow> Some (subsubkey, pysub subsubvalue r)) subvalue"

definition diff_seasons :: "pyfloat dict dict dict \<Rightarrow> string \<Rightarrow> pyfloat dict dict \<Rightarrow> pyfloat dict dict" where
  "diff_seasons reference key value =
     List.map_filter (\<lambda>(subkey, subvalue).
        case map_of reference key of
          None \<Rightarrow> None
        | Some refseasons \<Rightarrow>
            (case map_of refseasons subkey of
               None \<Rightarrow> None
             | Some refregions \<Rightarrow> Some (subkey, diff_regions subvalue refregions))) value"

definition compute_difference :: "pyfloat dict dict dict \<Rightarrow> pyfloat dict dict dict \<Rightarrow> pyfloat dict dict dict" where
  "compute_difference base reference =
     map (\<lambda>(key, value). (key, diff_seasons reference key value)) base"


section \<open>Objective function\<close>

text \<open>
  \<^verbatim>\<open>sensitivity[param][fluxname][season][region][0]\<close>: four dictionary lookups and
  the first element of the stored sequence.
\<close>

definition coefficient ::
  "real list dict dict dict dict \<Rightarrow> string \<Rightarrow> string \<Rightarrow> string \<Rightarrow> string \<Rightarrow> py_error + real" where
  "coefficient sensitivity param fluxname season region =
     ebind (lookup sensitivity param) (\<lambda>d1.
     ebind (lookup d1 fluxname) (\<lambda>d2.
     ebind (lookup d2 season) (\<lambda>d3.
     ebind (lookup d3 region) (\<lambda>cs. index cs 0))))"

text \<open>
  \<^verbatim>\<open>sum(sensitivity[param][fluxname][season][region][0] * changes[i]
      for i, param in enumerate(params))\<close>
\<close>

definition flux_change ::
  "real list \<Rightarrow> string list \<Rightarrow> real list dict dict dict dict \<Rightarrow> string \<Rightarrow> string \<Rightarrow> string
     \<Rightarrow> py_error + real" where
  "flux_change changes params sensitivity fluxname season region =
     fold_err (\<lambda>acc (i, param).
        ebind (coefficient sensitivity param fluxname season region) (\<lambda>c.
        ebind (index changes i) (\<lambda>x. Inr (acc + c * x))))
       0 (enumerate 0 params)"

text \<open>\<open>d.get(k, default)\<close>\<close>

definition dict_get :: "'v dict \<Rightarrow> string \<Rightarrow> 'v \<Rightarrow> 'v" where
  "dict_get d k dflt = (case map_of d k of None \<Rightarrow> dflt | Some v \<Rightarrow> v)"

text \<open>\<^verbatim>\<open>difference.get(fluxname,{}).get(season, {}).get(region, np.nan)\<close>\<close>

definition bias_get :: "pyfloat dict dict dict \<Rightarrow> string \<Rightarrow> string \<Rightarrow> string \<Rightarrow> pyfloat" where
  "bias_get difference fluxname season region =
     dict_get (dict_get (dict_get difference fluxname []) season []) region NaN"

text \<open>
  The triples visited by the loop nest
  \<^verbatim>\<open>
  for fluxname in sensitivity[params[0]].keys():
      for season in sensitivity[params[0]][fluxname].keys():
          for region in sensitivity[params[0]][fluxname][season].keys():
  \<close>
  in the order of the visits. The dictionary stored under a key is taken from the item
  the key comes from, which is what the lookup by that key returns in a dictionary.
\<close>

definition triples_of :: "'v dict dict dict \<Rightarrow> (string \<times> string \<times> string) list" where
  "triples_of tab =
     concat (map (\<lambda>(fluxname, seasons).
       concat (map (\<lambda>(season, regions).
         map (\<lambda>(region, _). (fluxname, season, region)) regions) seasons)) tab)"

text \<open>
  The body of the loop nest, on the accumulator \<open>total_difference\<close>:
  \<^verbatim>\<open>
  if not math.isnan(difference.get(fluxname,{}).get(season, {}).get(region, np.nan)):
      flux_change = sum(...)
      total_difference += weights_flux[fluxname] * weights_region[region]
          * weights_season[season] * (difference[fluxname][season][region] + flux_change) ** 2
  \<close>
\<close>

definition flux_step ::
  "real list \<Rightarrow> string list \<Rightarrow> real list dict dict dict dict \<Rightarrow> pyfloat dict dict dict
     \<Rightarrow> real dict \<Rightarrow> real dict \<Rightarrow> real dict \<Rightarrow> real \<Rightarrow> string \<times> string \<times> string
     \<Rightarrow> py_error + real" where
  "flux_step changes params sensitivity difference weights_flux weights_season weights_region
      total_difference t =
     (case t of (fluxname, season, region) \<Rightarrow>
       (case bias_get difference fluxname season region of
          NaN \<Rightarrow> Inr total_difference
        | Num b \<Rightarrow>
            ebind (flux_change changes params sensitivity fluxname season region) (\<lambda>fc.
            ebind (lookup weights_flux fluxname) (\<lambda>w1.
            ebind (lookup weights_region region) (\<lambda>w2.
            ebind (lookup weights_season season) (\<lambda>w3.
              Inr (total_difference + w1 * w2 * w3 * (b + fc)\<^sup>2)))))))"

text \<open>The value of \<open>total_difference\<close> after the loop nest (lines 85 to 94).\<close>

definition flux_term ::
  "real list \<Rightarrow> string list \<Rightarrow> real list dict dict dict dict \<Rightarrow> pyfloat dict dict dict
     \<Rightarrow> real dict \<Rightarrow> real dict \<Rightarrow> real dict \<Rightarrow> py_error + real" where
  "flux_term changes params sensitivity difference weights_flux weights_season weights_region =
     ebind (index params 0) (\<lambda>p0.
     ebind (lookup sensitivity p0) (\<lambda>tab.
       fold_err (flux_step changes params sensitivity difference
                   weights_flux weights_season weights_region) 0 (triples_of tab)))"

text \<open>
  The value of \<open>param_difference\<close> (line 96):
  \<^verbatim>\<open>
  param_difference += sum([((reference_pars[param] - (values[param] + changes[i]) )
      / reference_pars[param]) ** 2 for i, param in enumerate(params)])
  \<close>
  \<open>changes[i]\<close> is a numpy scalar, so the quotient, its square and the sum are numpy
  floats: a zero reference value raises nothing and gives an infinity or NaN.
\<close>

definition param_difference ::
  "real list \<Rightarrow> string list \<Rightarrow> real dict \<Rightarrow> real dict \<Rightarrow> py_error + npfloat" where
  "param_difference changes params values reference_pars =
     fold_err (\<lambda>acc (i, param).
        ebind (lookup reference_pars param) (\<lambda>r.
        ebind (lookup values param) (\<lambda>v.
        ebind (index changes i) (\<lambda>x.
          Inr (np_add acc (np_square (np_div (r - (v + x)) r)))))))
       (Fin 0) (enumerate 0 params)"

text \<open>\<^verbatim>\<open>return total_difference + param_difference * penalty\<close>\<close>

definition objective_function ::
  "real list \<Rightarrow> string list \<Rightarrow> real dict \<Rightarrow> real dict \<Rightarrow> real
     \<Rightarrow> real list dict dict dict dict \<Rightarrow> pyfloat dict dict dict
     \<Rightarrow> real dict \<Rightarrow> real dict \<Rightarrow> real dict \<Rightarrow> py_error + npfloat" where
  "objective_function changes params values reference_pars penalty sensitivity difference
      weights_flux weights_season weights_region =
     ebind (flux_term changes params sensitivity difference
              weights_flux weights_season weights_region) (\<lambda>total_difference.
     ebind (param_difference changes params values reference_pars) (\<lambda>pd.
       Inr (np_add (Fin total_difference) (np_scale pd penalty))))"


section \<open>Reporting of the flux offsets: \<open>print_change\<close>\<close>

text \<open>
  \<^verbatim>\<open>
  def print_change(logger, changes):
      for fluxname in targets:
          for region in difference[fluxname]['ALL']:
              if not math.isnan(difference[fluxname]['ALL'][region]):
                  flux_change = sum(sensitivity[param][fluxname]['ALL'][region][0] * changes[i]
                                    for i, param in enumerate(params))
                  logger.info("%s %s %s", fluxname, region,
                              difference[fluxname]['ALL'][region] + flux_change)
  \<close>
  The result is the list of logged lines; the globals it reads are parameters.
\<close>

definition print_change ::
  "string list \<Rightarrow> pyfloat dict dict dict \<Rightarrow> real list dict dict dict dict \<Rightarrow> string list
     \<Rightarrow> real list \<Rightarrow> py_error + (string \<times> string \<times> real) list" where
  "print_change targets difference sensitivity params changes =
     fold_err (\<lambda>logged fluxname.
        ebind (lookup difference fluxname) (\<lambda>seasons.
        ebind (lookup seasons ''ALL'') (\<lambda>regions.
          fold_err (\<lambda>logged' (region, b).
             case b of
               NaN \<Rightarrow> Inr logged'
             | Num x \<Rightarrow>
                 ebind (flux_change changes params sensitivity fluxname ''ALL'' region) (\<lambda>fc.
                   Inr (logged' @ [(fluxname, region, x + fc)])))
            logged regions)))
       [] targets"


section \<open>Command-line arguments: \<open>get_arg\<close> and the settings of the run\<close>

text \<open>The values an argparse namespace or the configuration file holds.\<close>

datatype pyval = PNone | PInt int | PFloat real | PStr string

text \<open>Python's truth value: \<open>None\<close>, zero and the empty string are false.\<close>

fun truthy :: "pyval \<Rightarrow> bool" where
  "truthy PNone = False"
| "truthy (PInt n) = (n \<noteq> 0)"
| "truthy (PFloat x) = (x \<noteq> 0)"
| "truthy (PStr s) = (s \<noteq> [])"

text \<open>
  \<^verbatim>\<open>
  def get_arg(args, arg, default):
      res = getattr(args, arg)
      if not res:
          res = default
      return res
  \<close>
  The namespace is a dictionary from attribute names to values.
\<close>

definition get_arg :: "pyval dict \<Rightarrow> string \<Rightarrow> pyval \<Rightarrow> py_error + pyval" where
  "get_arg args arg dflt =
     (case map_of args arg of
        None \<Rightarrow> Inl AttributeError
      | Some res \<Rightarrow> Inr (if \<not> truthy res then dflt else res))"

record settings =
  st_config_file :: pyval
  st_year1 :: pyval
  st_year2 :: pyval
  st_exp :: pyval
  st_loglevel :: pyval
  st_maxiter :: pyval
  st_penalty :: pyval
  st_inc :: pyval
  st_out :: pyval

text \<open>\<^verbatim>\<open>if not x: x = config['args'][name]\<close>\<close>

definition from_config :: "pyval dict \<Rightarrow> string \<Rightarrow> pyval \<Rightarrow> py_error + pyval" where
  "from_config config_args name x = (if \<not> truthy x then lookup config_args name else Inr x)"

text \<open>
  Lines 157 to 182 of the main program. \<open>load_config\<close> reads a file; its result enters
  as \<open>config_of\<close>, which gives the \<open>args\<close> section of the configuration that the file
  named \<open>config_file\<close> holds. \<open>sys.exit(1)\<close> is the error SystemExit.
\<close>

definition main_settings :: "pyval dict \<Rightarrow> (pyval \<Rightarrow> pyval dict) \<Rightarrow> py_error + settings" where
  "main_settings args config_of =
     ebind (get_arg args ''config'' (PStr ''config-tuner.yaml'')) (\<lambda>config_file.
     ebind (get_arg args ''year1'' PNone) (\<lambda>year1.
     ebind (get_arg args ''year2'' PNone) (\<lambda>year2.
     ebind (get_arg args ''exp'' PNone) (\<lambda>exp.
     ebind (get_arg args ''loglevel'' (PStr ''INFO'')) (\<lambda>loglevel.
     ebind (get_arg args ''maxiter'' (PInt 10000)) (\<lambda>maxiter.
     ebind (get_arg args ''penalty'' PNone) (\<lambda>penalty.
     ebind (get_arg args ''inc'' PNone) (\<lambda>inc.
     ebind (get_arg args ''output'' PNone) (\<lambda>out.
     if \<not> truthy exp then Inl SystemExit
     else
       ebind (from_config (config_of config_file) ''year1'' year1) (\<lambda>year1'.
       ebind (from_config (config_of config_file) ''year2'' year2) (\<lambda>year2'.
       ebind (from_config (config_of config_file) ''penalty'' penalty) (\<lambda>penalty'.
       ebind (from_config (config_of config_file) ''inc'' inc) (\<lambda>inc'.
         Inr \<lparr> st_config_file = config_file, st_year1 = year1', st_year2 = year2',
               st_exp = exp, st_loglevel = loglevel, st_maxiter = maxiter,
               st_penalty = penalty', st_inc = inc', st_out = out \<rparr>)))))))))))))"


section \<open>Parameter bounds, constraints and the run around the solver\<close>

text \<open>\<^verbatim>\<open>return list(params.keys()), list(params.values())\<close> of \<open>load_params\<close>.\<close>

definition load_params :: "real dict \<Rightarrow> string list \<times> real list" where
  "load_params param_table = (map fst param_table, map snd param_table)"

text \<open>
  \<^verbatim>\<open>
  diffmax = {}
  values = {}
  for i in range(len(params)):
      diffmax[params[i]] = vals[i] * inc
      values[params[i]] = vals[i]
  \<close>
\<close>

definition fill_tables ::
  "string list \<Rightarrow> real list \<Rightarrow> real \<Rightarrow> py_error + (real dict \<times> real dict)" where
  "fill_tables params vals inc =
     fold_err (\<lambda>(diffmax, values) i.
        ebind (index vals i) (\<lambda>v.
        ebind (index params i) (\<lambda>p.
          Inr (AList.update p (v * inc) diffmax, AList.update p v values))))
       ([], []) [0..<length params]"

text \<open>
  The constraint function of parameter \<open>i\<close>:
  \<^verbatim>\<open>lambda x, i=i: diffmax[params[i]] - np.abs(x[i])\<close>
\<close>

definition constraint_fun :: "real dict \<Rightarrow> string list \<Rightarrow> nat \<Rightarrow> real list \<Rightarrow> py_error + real" where
  "constraint_fun diffmax params i x =
     ebind (index params i) (\<lambda>p.
     ebind (lookup diffmax p) (\<lambda>m.
     ebind (index x i) (\<lambda>xi. Inr (m - \<bar>xi\<bar>))))"

definition constraints :: "real dict \<Rightarrow> string list \<Rightarrow> (real list \<Rightarrow> py_error + real) list" where
  "constraints diffmax params = map (constraint_fun diffmax params) [0..<length params]"

text \<open>The data the main program has loaded when line 213 is done.\<close>

record tuner_input =
  in_inc :: real
  in_penalty :: real
  in_reference_pars :: "real dict"
  in_weights_flux :: "real dict"
  in_weights_region :: "real dict"
  in_weights_season :: "real dict"
  in_sensitivity :: "real list dict dict dict dict"
  in_reference :: "pyfloat dict dict dict"
  in_base :: "pyfloat dict dict dict"
  in_param_table :: "real dict"

text \<open>What the main program has built when it calls \<open>minimize\<close> (line 249).\<close>

record prepared =
  pr_params :: "string list"
  pr_values :: "real dict"
  pr_diffmax :: "real dict"
  pr_difference :: "pyfloat dict dict dict"
  pr_initial_guess :: "real list"
  pr_logged :: "(string \<times> string \<times> real) list"

text \<open>
  Lines 213 to 243 of the main program: everything between the loading of the files
  and the call of the solver. \<open>targets\<close> is \<open>list(weights_flux.keys())\<close>, the initial guess
  is \<open>np.zeros(len(params))\<close>, and \<open>print_change\<close> is called on it.
\<close>

definition main_setup :: "tuner_input \<Rightarrow> py_error + prepared" where
  "main_setup inp =
     (case load_params (in_param_table inp) of (params, vals) \<Rightarrow>
       (let difference = compute_difference (in_base inp) (in_reference inp);
            targets = map fst (in_weights_flux inp)
        in ebind (fill_tables params vals (in_inc inp)) (\<lambda>(diffmax, values).
           (let initial_guess = replicate (length params) 0
            in ebind (print_change targets difference (in_sensitivity inp) params initial_guess)
                 (\<lambda>logged.
                   Inr \<lparr> pr_params = params, pr_values = values, pr_diffmax = diffmax,
                         pr_difference = difference, pr_initial_guess = initial_guess,
                         pr_logged = logged \<rparr>)))))"

text \<open>
  The score of the initial guess, as \<open>minimize\<close> evaluates it first and line 263
  evaluates it again.
\<close>

definition initial_score :: "tuner_input \<Rightarrow> prepared \<Rightarrow> py_error + npfloat" where
  "initial_score inp st =
     objective_function (pr_initial_guess st) (pr_params st) (pr_values st)
       (in_reference_pars inp) (in_penalty inp) (in_sensitivity inp) (pr_difference st)
       (in_weights_flux inp) (in_weights_season inp) (in_weights_region inp)"

text \<open>
  The rows of the final table (lines 279 to 283), for the optimal changes in the
  order of the parameters:
  \<^verbatim>\<open>
  for p in optimal_changes:
      outtable.append([p, values[p]+optimal_changes[p], values[p],
                       optimal_changes[p], optimal_changes[p]/values[p], diffmax[p]])
  \<close>
  \<open>optimal_changes[p]\<close> is an entry of \<open>result.x\<close>, a numpy scalar, so the relative change
  is a numpy quotient: infinite or NaN when the current value is zero.
\<close>

definition report_rows ::
  "real dict \<Rightarrow> real dict \<Rightarrow> real dict
     \<Rightarrow> py_error + (string \<times> real \<times> real \<times> real \<times> npfloat \<times> real) list" where
  "report_rows optimal_changes values diffmax =
     fold_err (\<lambda>outtable (p, c).
        ebind (lookup values p) (\<lambda>v.
        ebind (lookup diffmax p) (\<lambda>m.
          Inr (outtable @ [(p, v + c, v, c, np_div c v, m)]))))
       [] optimal_changes"


section \<open>Well-formed model data\<close>

text \<open>
  The conditions under which the specification calls the model data valid, as
  executable predicates. They are hypotheses of the properties below; the program
  itself checks none of them.
\<close>

definition succeeds :: "py_error + 'a \<Rightarrow> bool" where
  "succeeds r = (case r of Inl _ \<Rightarrow> False | Inr _ \<Rightarrow> True)"

definition nonneg_weights :: "real dict \<Rightarrow> bool" where
  "nonneg_weights w = list_all (\<lambda>(k, x). 0 \<le> x) w"

text \<open>
  A visited triple is complete when its bias is undefined, or its three weights and
  the sensitivity coefficient of every parameter are present.
\<close>

definition triple_ok ::
  "string list \<Rightarrow> real list dict dict dict dict \<Rightarrow> pyfloat dict dict dict
     \<Rightarrow> real dict \<Rightarrow> real dict \<Rightarrow> real dict \<Rightarrow> string \<times> string \<times> string \<Rightarrow> bool" where
  "triple_ok params sensitivity difference weights_flux weights_season weights_region t =
     (case t of (fluxname, season, region) \<Rightarrow>
       (case bias_get difference fluxname season region of
          NaN \<Rightarrow> True
        | Num b \<Rightarrow>
            map_of weights_flux fluxname \<noteq> None \<and> map_of weights_region region \<noteq> None \<and>
            map_of weights_season season \<noteq> None \<and>
            list_all (\<lambda>p. succeeds (coefficient sensitivity p fluxname season region)) params))"

definition valid_flux_data ::
  "real list \<Rightarrow> string list \<Rightarrow> real list dict dict dict dict \<Rightarrow> pyfloat dict dict dict
     \<Rightarrow> real dict \<Rightarrow> real dict \<Rightarrow> real dict \<Rightarrow> bool" where
  "valid_flux_data changes params sensitivity difference weights_flux weights_season weights_region =
     (length changes = length params \<and>
      nonneg_weights weights_flux \<and> nonneg_weights weights_season \<and>
      nonneg_weights weights_region \<and>
      (case params of
         [] \<Rightarrow> False
       | p0 # _ \<Rightarrow>
           (case map_of sensitivity p0 of
              None \<Rightarrow> False
            | Some tab \<Rightarrow>
                list_all (triple_ok params sensitivity difference
                            weights_flux weights_season weights_region) (triples_of tab))))"

definition valid_penalty_data :: "real list \<Rightarrow> string list \<Rightarrow> real dict \<Rightarrow> real dict \<Rightarrow> bool" where
  "valid_penalty_data changes params values reference_pars =
     (length changes = length params \<and>
      list_all (\<lambda>p. (case map_of reference_pars p of None \<Rightarrow> False | Some r \<Rightarrow> r \<noteq> 0) \<and>
                     map_of values p \<noteq> None) params)"

definition valid_model ::
  "real list \<Rightarrow> string list \<Rightarrow> real dict \<Rightarrow> real dict \<Rightarrow> real
     \<Rightarrow> real list dict dict dict dict \<Rightarrow> pyfloat dict dict dict
     \<Rightarrow> real dict \<Rightarrow> real dict \<Rightarrow> real dict \<Rightarrow> bool" where
  "valid_model changes params values reference_pars penalty sensitivity difference
      weights_flux weights_season weights_region =
     (valid_flux_data changes params sensitivity difference
        weights_flux weights_season weights_region \<and>
      valid_penalty_data changes params values reference_pars \<and> 0 < penalty)"

text \<open>
  Every parameter has a current value and a reference value, and the change vector
  has one entry per parameter: the lookups of the penalty term succeed.
\<close>

definition penalty_data_present :: "real list \<Rightarrow> string list \<Rightarrow> real dict \<Rightarrow> real dict \<Rightarrow> bool" where
  "penalty_data_present changes params values reference_pars =
     (length changes = length params \<and>
      list_all (\<lambda>p. map_of reference_pars p \<noteq> None \<and> map_of values p \<noteq> None) params)"

text \<open>Every changed parameter has a current value and a maximum change.\<close>

definition report_data_present :: "real dict \<Rightarrow> real dict \<Rightarrow> real dict \<Rightarrow> bool" where
  "report_data_present optimal_changes values diffmax =
     list_all (\<lambda>(p, c). map_of values p \<noteq> None \<and> map_of diffmax p \<noteq> None) optimal_changes"

text \<open>The keys of a three-level table are pairwise different at every level.\<close>

definition distinct_keys3 :: "'v dict dict dict \<Rightarrow> bool" where
  "distinct_keys3 tab =
     (distinct (map fst tab) \<and>
      list_all (\<lambda>(k1, d1). distinct (map fst d1) \<and>
        list_all (\<lambda>(k2, d2). distinct (map fst d2)) d1) tab)"

text \<open>
  The entries of the bias table that hold a number: the triples of the table at which
  the lookup gives a number, with that number.
\<close>

definition bias_entries :: "pyfloat dict dict dict \<Rightarrow> ((string \<times> string \<times> string) \<times> real) list" where
  "bias_entries difference =
     List.map_filter (\<lambda>t.
        case t of (fluxname, season, region) \<Rightarrow>
          (case bias_get difference fluxname season region of
             NaN \<Rightarrow> None
           | Num b \<Rightarrow> Some (t, b))) (triples_of difference)"

text \<open>
  Every defined bias entry has its triple in the sensitivity table of the first
  parameter (the specification's condition that a sensitivity coefficient exists for
  every combination the bias model refers to).
\<close>

definition bias_covered :: "string list \<Rightarrow> real list dict dict dict dict \<Rightarrow> pyfloat dict dict dict \<Rightarrow> bool" where
  "bias_covered params sensitivity difference =
     (case params of
        [] \<Rightarrow> False
      | p0 # _ \<Rightarrow>
          (case map_of sensitivity p0 of
             None \<Rightarrow> False
           | Some tab \<Rightarrow> list_all (\<lambda>(t, b). t \<in> set (triples_of tab)) (bias_entries difference)))"

text \<open>The weighted square of one bias entry; a missing weight counts as 0.\<close>

definition weighted_square :: "real dict \<Rightarrow> real dict \<Rightarrow> real dict \<Rightarrow> (string \<times> string \<times> string) \<times> real \<Rightarrow> real" where
  "weighted_square weights_flux weights_season weights_region e =
     (case e of ((fluxname, season, region), b) \<Rightarrow>
        dict_get weights_flux fluxname 0 * dict_get weights_region region 0 *
        dict_get weights_season season 0 * b\<^sup>2)"

text \<open>
  Adding one sensitivity coefficient to the table, as the assignment
  \<^verbatim>\<open>sensitivity.setdefault(param, {}).setdefault(fluxname, {}).setdefault(season, {})[region] = [c]\<close>
  does: dictionaries missing on the way are created, an existing entry is replaced.
\<close>

definition add_sensitivity ::
  "string \<Rightarrow> string \<Rightarrow> string \<Rightarrow> string \<Rightarrow> real \<Rightarrow> real list dict dict dict dict
     \<Rightarrow> real list dict dict dict dict" where
  "add_sensitivity param fluxname season region c sensitivity =
     (let d1 = dict_get sensitivity param [];
          d2 = dict_get d1 fluxname [];
          d3 = dict_get d2 season []
      in AList.update param
           (AList.update fluxname
              (AList.update season (AList.update region [c] d3) d2) d1) sensitivity)"

text \<open>
  Setting one entry of the bias table, as the assignment
  \<^verbatim>\<open>difference.setdefault(fluxname, {}).setdefault(season, {})[region] = b\<close>
  does.
\<close>

definition set_bias ::
  "string \<Rightarrow> string \<Rightarrow> string \<Rightarrow> pyfloat \<Rightarrow> pyfloat dict dict dict \<Rightarrow> pyfloat dict dict dict" where
  "set_bias fluxname season region b difference =
     (let d1 = dict_get difference fluxname [];
          d2 = dict_get d1 season []
      in AList.update fluxname (AList.update season (AList.update region b d2) d1) difference)"


section \<open>Properties of the bias model\<close>

lemma map_of_map_filter_key:
  "map_of (List.map_filter (\<lambda>(k, v). case g k of None \<Rightarrow> None | Some r \<Rightarrow> Some (k, h k v r)) xs) k =
     (case g k of None \<Rightarrow> None | Some r \<Rightarrow> map_option (\<lambda>v. h k v r) (map_of xs k))"
  by (induction xs) (auto split: option.splits)

lemma map_of_diff_regions:
  "map_of (diff_regions subvalue refregions) r =
     (case map_of refregions r of None \<Rightarrow> None
      | Some x \<Rightarrow> map_option (\<lambda>v. pysub v x) (map_of subvalue r))"
  unfolding diff_regions_def
  using map_of_map_filter_key [where g = "map_of refregions" and h = "\<lambda>k v x. pysub v x"
      and xs = subvalue and k = r]
  by simp

lemma map_of_diff_seasons:
  "map_of (diff_seasons reference key value) s =
     (case map_of reference key of None \<Rightarrow> None
      | Some refseasons \<Rightarrow>
          (case map_of refseasons s of None \<Rightarrow> None
           | Some refregions \<Rightarrow>
               map_option (\<lambda>subvalue. diff_regions subvalue refregions) (map_of value s)))"
proof -
  let ?g = "\<lambda>k. case map_of reference key of None \<Rightarrow> None
                 | Some refseasons \<Rightarrow> map_of refseasons k"
  have eq: "diff_seasons reference key value =
      List.map_filter (\<lambda>(k, v). case ?g k of None \<Rightarrow> None
                                 | Some r \<Rightarrow> Some (k, diff_regions v r)) value"
    unfolding diff_seasons_def
    by (rule arg_cong [where f = "\<lambda>f. List.map_filter f value"])
       (auto simp: fun_eq_iff split: option.splits)
  show ?thesis
    unfolding eq
    using map_of_map_filter_key [where g = ?g and h = "\<lambda>k v r. diff_regions v r"
      and xs = "value" and k = s]
    by (simp split: option.splits)
qed

lemma map_of_compute_difference:
  "map_of (compute_difference base reference) v =
     map_option (diff_seasons reference v) (map_of base v)"
  unfolding compute_difference_def by (induction base) auto

text \<open>
  C3. The table built by \<open>compute_difference\<close> has an entry for a (variable, season,
  region) triple exactly when both the simulated table and the reference table have
  one at all three levels, and the entry is then simulated minus reference; every other
  triple is absent. The function is total: it has no error result.
\<close>

theorem compute_difference_lookup3:
  "lookup3 (compute_difference base reference) v s r =
     (case lookup3 base v s r of
        None \<Rightarrow> None
      | Some b \<Rightarrow> (case lookup3 reference v s r of
                     None \<Rightarrow> None
                   | Some x \<Rightarrow> Some (pysub b x)))"
  unfolding lookup3_def
  by (simp add: map_of_compute_difference map_of_diff_seasons map_of_diff_regions
           split: option.splits)

theorem compute_difference_lookup3_witness:
  "lookup3 (compute_difference
       [(''tas'', [(''ALL'', [(''Global'', Num 2), (''Arctic'', Num 1)])]),
        (''pr'', [(''ALL'', [(''Global'', Num 5)])])]
       [(''tas'', [(''ALL'', [(''Global'', Num (3/2)), (''Tropics'', Num 4)])])])
     ''tas'' ''ALL'' ''Global'' = Some (Num (1/2))"
  using compute_difference_lookup3 [of
       "[(''tas'', [(''ALL'', [(''Global'', Num 2), (''Arctic'', Num 1)])]),
         (''pr'', [(''ALL'', [(''Global'', Num 5)])])]"
       "[(''tas'', [(''ALL'', [(''Global'', Num (3/2)), (''Tropics'', Num 4)])])]"
       "''tas''" "''ALL''" "''Global''"]
  by (simp add: lookup3_def)

section \<open>Helper lemmas on lookups and loops\<close>

lemma ebind_Inr_iff:
  "ebind m f = Inr y \<longleftrightarrow> (\<exists>x. m = Inr x \<and> f x = Inr y)"
  by (cases m) auto

lemma lookup_Some: "map_of d k = Some v \<Longrightarrow> lookup d k = Inr v"
  by (simp add: lookup_def)

lemma lookup_None: "map_of d k = None \<Longrightarrow> lookup d k = Inl KeyError"
  by (simp add: lookup_def)

lemma lookup_dict_get: "map_of d k \<noteq> None \<Longrightarrow> lookup d k = Inr (dict_get d k dflt)"
  by (auto simp: lookup_def dict_get_def)

lemma index_in_range: "i < length xs \<Longrightarrow> index xs i = Inr (xs ! i)"
  by (simp add: index_def)

lemma fold_err_sum:
  fixes g :: "'b \<Rightarrow> real"
  assumes "\<And>x a. x \<in> set xs \<Longrightarrow> f a x = Inr (a + g x)"
  shows "fold_err f a xs = Inr (a + sum_list (map g xs))"
  using assms by (induction xs arbitrary: a) (auto simp: add.assoc)

lemma fold_err_cong:
  assumes "\<And>x a. x \<in> set xs \<Longrightarrow> f a x = f' a x"
  shows "fold_err f a xs = fold_err f' a xs"
  using assms by (induction xs arbitrary: a) (auto split: sum.splits)

lemma fold_err_total:
  assumes "\<And>x a. x \<in> set xs \<Longrightarrow> \<exists>b. f a x = Inr b"
  shows "\<exists>r. fold_err f a xs = Inr r"
  using assms
proof (induction xs arbitrary: a)
  case Nil
  show ?case by simp
next
  case (Cons y ys)
  from Cons.prems [of y a] obtain b where b: "f a y = Inr b" by auto
  from Cons.IH [of b] Cons.prems obtain r where "fold_err f b ys = Inr r" by auto
  with b show ?case by simp
qed

lemma fold_err_fin_sum:
  assumes "\<And>x a. x \<in> set xs \<Longrightarrow> f (Fin a) x = Inr (Fin (a + g x))"
  shows "fold_err f (Fin a) xs = Inr (Fin (a + sum_list (map g xs)))"
  using assms by (induction xs arbitrary: a) (auto simp: add.assoc)


section \<open>Constraint model\<close>

text \<open>
  C6. For a parameter index \<open>i\<close> within the parameter list and the change vector, with
  maximum change \<open>m = diffmax[params[i]]\<close>, the constraint function returns a number that
  is non-negative exactly when \<open>|x[i]| \<le> m\<close>, and that is zero when \<open>|x[i]| = m\<close>.
\<close>

theorem constraint_fun_sign:
  assumes "i < length params" and "map_of diffmax (params ! i) = Some m" and "i < length x"
  shows "\<exists>c. constraint_fun diffmax params i x = Inr c \<and>
             (0 \<le> c \<longleftrightarrow> \<bar>x ! i\<bar> \<le> m) \<and> (\<bar>x ! i\<bar> = m \<longrightarrow> c = 0)"
  using assms by (simp add: constraint_fun_def index_def lookup_def)

theorem constraint_fun_sign_witness:
  "0 < length [''a'', ''b''] \<and> map_of [(''a'', 6/1000), (''b'', 1)] ([''a'', ''b''] ! 0) = Some (6/1000)
     \<and> 0 < length [-6/1000, 2::real]
     \<and> constraint_fun [(''a'', 6/1000), (''b'', 1)] [''a'', ''b''] 0 [-6/1000, 2] = Inr 0"
  using constraint_fun_sign [of 0 "[''a'', ''b'']" "[(''a'', 6/1000), (''b'', 1)]" "6/1000" "[-6/1000, 2]"]
  by (simp add: constraint_fun_def index_def lookup_def)

section \<open>Penalty term\<close>

lemma enumerate_index:
  "(i, p) \<in> set (enumerate 0 params) \<longleftrightarrow> i < length params \<and> params ! i = p"
  by (auto simp: in_set_enumerate_eq)

lemma ball_enumerate:
  "(\<forall>x\<in>set (enumerate 0 xs). P x) \<longleftrightarrow> (\<forall>i<length xs. P (i, xs ! i))"
proof
  assume l: "\<forall>x\<in>set (enumerate 0 xs). P x"
  show "\<forall>i<length xs. P (i, xs ! i)"
  proof (intro allI impI)
    fix i assume "i < length xs"
    then have "(i, xs ! i) \<in> set (enumerate 0 xs)" by (simp add: enumerate_index)
    with l show "P (i, xs ! i)" by blast
  qed
next
  assume r: "\<forall>i<length xs. P (i, xs ! i)"
  show "\<forall>x\<in>set (enumerate 0 xs). P x"
  proof
    fix x assume "x \<in> set (enumerate 0 xs)"
    then have "fst x < length xs" "xs ! fst x = snd x"
      by (simp_all add: in_set_enumerate_eq)
    with r have "P (fst x, snd x)" by auto
    then show "P x" by simp
  qed
qed

lemma param_difference_value:
  assumes "valid_penalty_data changes params values reference_pars"
  shows "param_difference changes params values reference_pars =
           Inr (Fin (\<Sum>(i, p)\<leftarrow>enumerate 0 params.
                  ((dict_get reference_pars p 0 - (dict_get values p 0 + changes ! i))
                     / dict_get reference_pars p 0)\<^sup>2))"
proof -
  let ?g = "\<lambda>(i, p). ((dict_get reference_pars p 0 - (dict_get values p 0 + changes ! i))
                     / dict_get reference_pars p 0)\<^sup>2"
  let ?f = "\<lambda>acc (i, param).
        ebind (lookup reference_pars param) (\<lambda>r.
        ebind (lookup values param) (\<lambda>v.
        ebind (index changes i) (\<lambda>x.
          Inr (np_add acc (np_square (np_div (r - (v + x)) r))))))"
  have len: "length changes = length params"
    and ok: "\<And>p. p \<in> set params \<Longrightarrow>
               (\<exists>r. map_of reference_pars p = Some r \<and> r \<noteq> 0) \<and> (\<exists>v. map_of values p = Some v)"
    using assms by (auto simp: valid_penalty_data_def list_all_iff split: option.splits)
  have step: "?f (Fin a) x = Inr (Fin (a + ?g x))"
    if "x \<in> set (enumerate 0 params)" for x a
  proof -
    obtain i p where x: "x = (i, p)" by (cases x)
    with that have i: "i < length params" and p: "params ! i = p"
      by (simp_all add: enumerate_index)
    then have "p \<in> set params" by auto
    from ok [OF this] obtain r v where "map_of reference_pars p = Some r" "r \<noteq> 0"
      "map_of values p = Some v" by blast
    with i len show ?thesis
      by (simp add: x lookup_def index_def dict_get_def np_div_def)
  qed
  show ?thesis
    unfolding param_difference_def
    using fold_err_fin_sum [where f = ?f and g = ?g and a = 0
        and xs = "enumerate 0 params", OF step]
    by simp
qed

lemma sum_list_squares_zero_iff:
  fixes g :: "'a \<Rightarrow> real"
  shows "(\<Sum>x\<leftarrow>xs. (g x)\<^sup>2) = 0 \<longleftrightarrow> (\<forall>x\<in>set xs. g x = 0)"
proof -
  have "sum_list (map (\<lambda>x. (g x)\<^sup>2) xs) = 0 \<longleftrightarrow> (\<forall>y\<in>set (map (\<lambda>x. (g x)\<^sup>2) xs). y = 0)"
    by (rule sum_list_nonneg_eq_0_iff) auto
  then show ?thesis by auto
qed

text \<open>
  C7. When every parameter has a current value and a non-zero reference value, and the
  change vector has one entry per parameter, the sum of squares \<open>param_difference\<close> is
  computed without error, is a real number, and is zero exactly when, for every parameter, current value
  plus change equals the reference value; for a positive penalty coefficient the same
  holds of the penalty term \<open>param_difference * penalty\<close>.
\<close>

theorem penalty_zero_iff:
  assumes "valid_penalty_data changes params values reference_pars"
  shows "\<exists>pd. param_difference changes params values reference_pars = Inr (Fin pd) \<and>
           (pd = 0 \<longleftrightarrow>
              (\<forall>i<length params. dict_get values (params ! i) 0 + changes ! i
                                    = dict_get reference_pars (params ! i) 0)) \<and>
           (0 < penalty \<longrightarrow>
              (pd * penalty = 0 \<longleftrightarrow>
                 (\<forall>i<length params. dict_get values (params ! i) 0 + changes ! i
                                       = dict_get reference_pars (params ! i) 0)))"
proof -
  let ?h = "\<lambda>(i, p). (dict_get reference_pars p 0 - (dict_get values p 0 + changes ! i))
                     / dict_get reference_pars p 0"
  let ?pd = "\<Sum>x\<leftarrow>enumerate 0 params. (?h x)\<^sup>2"
  have nz: "dict_get reference_pars (params ! i) 0 \<noteq> 0" if "i < length params" for i
  proof -
    from that have "params ! i \<in> set params" by simp
    with assms show ?thesis
      by (auto simp: valid_penalty_data_def list_all_iff dict_get_def split: option.splits)
  qed
  have val: "param_difference changes params values reference_pars = Inr (Fin ?pd)"
    using param_difference_value [OF assms]
    by (simp add: case_prod_unfold)
  have "?pd = 0 \<longleftrightarrow> (\<forall>x\<in>set (enumerate 0 params). ?h x = 0)"
    by (rule sum_list_squares_zero_iff)
  also have "\<dots> \<longleftrightarrow> (\<forall>i<length params. ?h (i, params ! i) = 0)"
    by (rule ball_enumerate)
  also have "\<dots> \<longleftrightarrow> (\<forall>i<length params. dict_get values (params ! i) 0 + changes ! i
                                    = dict_get reference_pars (params ! i) 0)"
    using nz by auto
  finally have iff: "?pd = 0 \<longleftrightarrow> (\<forall>i<length params. dict_get values (params ! i) 0 + changes ! i
                                    = dict_get reference_pars (params ! i) 0)" .
  show ?thesis
    using val iff by auto
qed

theorem penalty_zero_iff_witness:
  "valid_penalty_data [1, -1] [''a'', ''b''] [(''a'', 2), (''b'', 5)] [(''a'', 3), (''b'', 4)]
   \<and> param_difference [1, -1] [''a'', ''b''] [(''a'', 2), (''b'', 5)] [(''a'', 3), (''b'', 4)] = Inr (Fin 0)
   \<and> param_difference [1, 0] [''a'', ''b''] [(''a'', 2), (''b'', 5)] [(''a'', 3), (''b'', 4)] = Inr (Fin (1/16))"
proof -
  have v: "valid_penalty_data [1, -1] [''a'', ''b''] [(''a'', 2), (''b'', 5)] [(''a'', 3), (''b'', 4)]"
    by (simp add: valid_penalty_data_def)
  have "\<forall>i<length [''a'', ''b'']. dict_get [(''a'', 2), (''b'', 5)] ([''a'', ''b''] ! i) 0 + [1, -1] ! i
          = dict_get [(''a'', 3), (''b'', 4::real)] ([''a'', ''b''] ! i) 0"
    by (simp add: dict_get_def less_Suc_eq)
  with penalty_zero_iff [OF v, of 1]
  have "param_difference [1, -1] [''a'', ''b''] [(''a'', 2), (''b'', 5)] [(''a'', 3), (''b'', 4)] = Inr (Fin 0)"
    by auto
  moreover have "param_difference [1, 0] [''a'', ''b''] [(''a'', 2), (''b'', 5)] [(''a'', 3), (''b'', 4)] = Inr (Fin (1/16))"
    by (simp add: param_difference_def enumerate_eq_zip lookup_def index_def np_div_def
          power2_eq_square)
  ultimately show ?thesis using v by simp
qed

section \<open>Command-line arguments\<close>

lemma get_arg_falsy:
  assumes "\<not> truthy v"
  shows "get_arg (AList.update k v args) arg dflt = get_arg (AList.update k PNone args) arg dflt"
  using assms by (simp add: get_arg_def update_conv')

lemma main_settings_Inr:
  assumes "main_settings args config_of = Inr st"
  shows "\<exists>penalty inc.
           get_arg args ''config'' (PStr ''config-tuner.yaml'') = Inr (st_config_file st) \<and>
           get_arg args ''maxiter'' (PInt 10000) = Inr (st_maxiter st) \<and>
           get_arg args ''penalty'' PNone = Inr penalty \<and>
           get_arg args ''inc'' PNone = Inr inc \<and>
           from_config (config_of (st_config_file st)) ''penalty'' penalty = Inr (st_penalty st) \<and>
           from_config (config_of (st_config_file st)) ''inc'' inc = Inr (st_inc st)"
proof -
  from assms obtain config_file year1 year2 exp loglevel maxiter penalty inc out
    where a: "get_arg args ''config'' (PStr ''config-tuner.yaml'') = Inr config_file"
      "get_arg args ''year1'' PNone = Inr year1"
      "get_arg args ''year2'' PNone = Inr year2"
      "get_arg args ''exp'' PNone = Inr exp"
      "get_arg args ''loglevel'' (PStr ''INFO'') = Inr loglevel"
      "get_arg args ''maxiter'' (PInt 10000) = Inr maxiter"
      "get_arg args ''penalty'' PNone = Inr penalty"
      "get_arg args ''inc'' PNone = Inr inc"
      "get_arg args ''output'' PNone = Inr out"
    and r: "(if \<not> truthy exp then Inl SystemExit
     else
       ebind (from_config (config_of config_file) ''year1'' year1) (\<lambda>year1'.
       ebind (from_config (config_of config_file) ''year2'' year2) (\<lambda>year2'.
       ebind (from_config (config_of config_file) ''penalty'' penalty) (\<lambda>penalty'.
       ebind (from_config (config_of config_file) ''inc'' inc) (\<lambda>inc'.
         Inr \<lparr> st_config_file = config_file, st_year1 = year1', st_year2 = year2',
               st_exp = exp, st_loglevel = loglevel, st_maxiter = maxiter,
               st_penalty = penalty', st_inc = inc', st_out = out \<rparr>))))) = Inr st"
    unfolding main_settings_def ebind_Inr_iff by blast
  from r have t: "truthy exp" by (simp split: if_splits)
  with r obtain year1' year2' penalty' inc'
    where b: "from_config (config_of config_file) ''penalty'' penalty = Inr penalty'"
      "from_config (config_of config_file) ''inc'' inc = Inr inc'"
    and st: "st = \<lparr> st_config_file = config_file, st_year1 = year1', st_year2 = year2',
               st_exp = exp, st_loglevel = loglevel, st_maxiter = maxiter,
               st_penalty = penalty', st_inc = inc', st_out = out \<rparr>"
    by (auto simp: ebind_Inr_iff)
  show ?thesis
    using a b by (simp add: st)
qed

text \<open>
  C10. \<open>get_arg\<close> returns the default whenever the value of the argument is false in
  Python's sense (\<open>None\<close>, \<open>0\<close>, \<open>0.0\<close>, the empty string), not only when it is \<open>None\<close>.
  So the settings of a run in which an option was given such a value are those of the
  run in which the option was not given at all: \<open>maxiter\<close> becomes 10000, and the
  penalty and the increment are the ones of the configuration file.
\<close>

theorem get_arg_falsy_is_default:
  assumes "\<not> truthy v"
  shows "(map_of args arg = Some v \<longrightarrow> get_arg args arg dflt = Inr dflt) \<and>
         main_settings (AList.update k v args) config_of =
           main_settings (AList.update k PNone args) config_of \<and>
         (main_settings args config_of = Inr st \<and> map_of args ''maxiter'' = Some v
            \<longrightarrow> st_maxiter st = PInt 10000) \<and>
         (main_settings args config_of = Inr st \<and> map_of args ''penalty'' = Some v
            \<longrightarrow> lookup (config_of (st_config_file st)) ''penalty'' = Inr (st_penalty st)) \<and>
         (main_settings args config_of = Inr st \<and> map_of args ''inc'' = Some v
            \<longrightarrow> lookup (config_of (st_config_file st)) ''inc'' = Inr (st_inc st))"
proof (intro conjI impI)
  show "get_arg args arg dflt = Inr dflt" if "map_of args arg = Some v"
    using assms that by (simp add: get_arg_def)
  show "main_settings (AList.update k v args) config_of =
           main_settings (AList.update k PNone args) config_of"
    unfolding main_settings_def by (simp only: get_arg_falsy [OF assms])
  have g: "get_arg args a d = Inr d" if "map_of args a = Some v" for a d
    using assms that by (simp add: get_arg_def)
  show "st_maxiter st = PInt 10000"
    if "main_settings args config_of = Inr st \<and> map_of args ''maxiter'' = Some v"
    using main_settings_Inr [of args config_of st] that g [of "''maxiter''" "PInt 10000"]
    by auto
  show "lookup (config_of (st_config_file st)) ''penalty'' = Inr (st_penalty st)"
    if "main_settings args config_of = Inr st \<and> map_of args ''penalty'' = Some v"
    using main_settings_Inr [of args config_of st] that g [of "''penalty''" PNone]
    by (auto simp: from_config_def)
  show "lookup (config_of (st_config_file st)) ''inc'' = Inr (st_inc st)"
    if "main_settings args config_of = Inr st \<and> map_of args ''inc'' = Some v"
    using main_settings_Inr [of args config_of st] that g [of "''inc''" PNone]
    by (auto simp: from_config_def)
qed

theorem get_arg_falsy_is_default_witness:
  "\<not> truthy (PInt 0) \<and>
   get_arg [(''config'', PNone), (''output'', PNone), (''loglevel'', PNone),
         (''maxiter'', PInt 0), (''penalty'', PFloat 0), (''inc'', PNone),
         (''exp'', PStr ''s000''), (''year1'', PInt 1990), (''year2'', PNone)]
       ''maxiter'' (PInt 10000) = Inr (PInt 10000) \<and>
   main_settings
     (AList.update ''maxiter'' (PInt 0)
        [(''config'', PNone), (''output'', PNone), (''loglevel'', PNone),
         (''maxiter'', PInt 0), (''penalty'', PFloat 0), (''inc'', PNone),
         (''exp'', PStr ''s000''), (''year1'', PInt 1990), (''year2'', PNone)])
     (\<lambda>f. [(''year1'', PInt 1), (''year2'', PInt 2), (''penalty'', PFloat (1/100)),
           (''inc'', PFloat (1/10))])
   = Inr \<lparr> st_config_file = PStr ''config-tuner.yaml'', st_year1 = PInt 1990,
           st_year2 = PInt 2, st_exp = PStr ''s000'', st_loglevel = PStr ''INFO'',
           st_maxiter = PInt 10000, st_penalty = PFloat (1/100), st_inc = PFloat (1/10),
           st_out = PNone \<rparr>"
proof -
  have f: "\<not> truthy (PInt 0)" by simp
  have m: "map_of [(''config'', PNone), (''output'', PNone), (''loglevel'', PNone),
         (''maxiter'', PInt 0), (''penalty'', PFloat 0), (''inc'', PNone),
         (''exp'', PStr ''s000''), (''year1'', PInt 1990), (''year2'', PNone)] ''maxiter''
       = Some (PInt 0)" by simp
  have e: "main_settings
     (AList.update ''maxiter'' PNone
        [(''config'', PNone), (''output'', PNone), (''loglevel'', PNone),
         (''maxiter'', PInt 0), (''penalty'', PFloat 0), (''inc'', PNone),
         (''exp'', PStr ''s000''), (''year1'', PInt 1990), (''year2'', PNone)])
     (\<lambda>f. [(''year1'', PInt 1), (''year2'', PInt 2), (''penalty'', PFloat (1/100)),
           (''inc'', PFloat (1/10))])
   = Inr \<lparr> st_config_file = PStr ''config-tuner.yaml'', st_year1 = PInt 1990,
           st_year2 = PInt 2, st_exp = PStr ''s000'', st_loglevel = PStr ''INFO'',
           st_maxiter = PInt 10000, st_penalty = PFloat (1/100), st_inc = PFloat (1/10),
           st_out = PNone \<rparr>"
    by (simp add: main_settings_def get_arg_def from_config_def lookup_def)
  note t = get_arg_falsy_is_default [OF f, where arg = "''maxiter''" and dflt = "PInt 10000"
      and k = "''maxiter''"
      and args = "[(''config'', PNone), (''output'', PNone), (''loglevel'', PNone),
         (''maxiter'', PInt 0), (''penalty'', PFloat 0), (''inc'', PNone),
         (''exp'', PStr ''s000''), (''year1'', PInt 1990), (''year2'', PNone)]"
      and config_of = "\<lambda>f. [(''year1'', PInt 1), (''year2'', PInt 2),
           (''penalty'', PFloat (1/100)), (''inc'', PFloat (1/10))]"]
  from t have a: "get_arg [(''config'', PNone), (''output'', PNone), (''loglevel'', PNone),
         (''maxiter'', PInt 0), (''penalty'', PFloat 0), (''inc'', PNone),
         (''exp'', PStr ''s000''), (''year1'', PInt 1990), (''year2'', PNone)]
       ''maxiter'' (PInt 10000) = Inr (PInt 10000)"
    using m by blast
  from t have b: "main_settings
     (AList.update ''maxiter'' (PInt 0)
        [(''config'', PNone), (''output'', PNone), (''loglevel'', PNone),
         (''maxiter'', PInt 0), (''penalty'', PFloat 0), (''inc'', PNone),
         (''exp'', PStr ''s000''), (''year1'', PInt 1990), (''year2'', PNone)])
     (\<lambda>f. [(''year1'', PInt 1), (''year2'', PInt 2), (''penalty'', PFloat (1/100)),
           (''inc'', PFloat (1/10))]) =
     main_settings
     (AList.update ''maxiter'' PNone
        [(''config'', PNone), (''output'', PNone), (''loglevel'', PNone),
         (''maxiter'', PInt 0), (''penalty'', PFloat 0), (''inc'', PNone),
         (''exp'', PStr ''s000''), (''year1'', PInt 1990), (''year2'', PNone)])
     (\<lambda>f. [(''year1'', PInt 1), (''year2'', PInt 2), (''penalty'', PFloat (1/100)),
           (''inc'', PFloat (1/10))])"
    by blast
  show ?thesis
    using f a b e by (simp only: simp_thms)
qed

section \<open>Parameter bounds\<close>

lemma fold_err_append:
  "fold_err f a (xs @ ys) =
     (case fold_err f a xs of Inl e \<Rightarrow> Inl e | Inr b \<Rightarrow> fold_err f b ys)"
  by (induction xs arbitrary: a) (auto split: sum.splits)

text \<open>
  After \<open>n\<close> rounds of the loop, both tables hold the entries of the first \<open>n\<close>
  parameters.
\<close>

lemma fill_tables_prefix:
  assumes "length vals = length params" and "distinct params" and "n \<le> length params"
  shows "\<exists>diffmax values.
           fold_err (\<lambda>(diffmax, values) i.
              ebind (index vals i) (\<lambda>v.
              ebind (index params i) (\<lambda>p.
                Inr (AList.update p (v * inc) diffmax, AList.update p v values))))
             ([], []) [0..<n] = Inr (diffmax, values) \<and>
           (\<forall>i<n. map_of diffmax (params ! i) = Some (vals ! i * inc) \<and>
                   map_of values (params ! i) = Some (vals ! i))"
  using assms(3)
proof (induction n)
  case 0
  show ?case by simp
next
  case (Suc n)
  then obtain diffmax "values" where
    run: "fold_err (\<lambda>(diffmax, values) i.
              ebind (index vals i) (\<lambda>v.
              ebind (index params i) (\<lambda>p.
                Inr (AList.update p (v * inc) diffmax, AList.update p v values))))
             ([], []) [0..<n] = Inr (diffmax, values)"
    and inv: "\<And>i. i < n \<Longrightarrow> map_of diffmax (params ! i) = Some (vals ! i * inc) \<and>
                   map_of values (params ! i) = Some (vals ! i)"
    by auto
  from Suc.prems assms(1) have n: "n < length params" "n < length vals" by simp_all
  have diff: "params ! i \<noteq> params ! n" if "i < n" for i
    using that n assms(2) by (simp add: nth_eq_iff_index_eq)
  show ?case
    apply (rule exI [of _ "AList.update (params ! n) (vals ! n * inc) diffmax"])
    apply (rule exI [of _ "AList.update (params ! n) (vals ! n) values"])
    using run inv n diff
    by (simp add: fold_err_append index_def update_conv' less_Suc_eq)
qed

text \<open>
  C8 (as amended). For a parameter table with pairwise different names, the loop that
  fills \<open>diffmax\<close> and \<open>values\<close> ends without error, and for every parameter the maximum
  change stored is its current value times the increment; that product is non-negative
  when the current value and the increment are both non-negative.
\<close>

theorem diffmax_is_value_times_inc:
  assumes "distinct (map fst param_table)" and "(p, v) \<in> set param_table"
  shows "\<exists>diffmax values.
           fill_tables (fst (load_params param_table)) (snd (load_params param_table)) inc
             = Inr (diffmax, values) \<and>
           map_of diffmax p = Some (v * inc) \<and> map_of values p = Some v \<and>
           (0 \<le> v \<and> 0 \<le> inc \<longrightarrow> 0 \<le> v * inc)"
proof -
  let ?params = "map fst param_table" and ?vals = "map snd param_table"
  from fill_tables_prefix [of ?vals ?params "length ?params" inc] assms(1)
  obtain diffmax "values" where
    run: "fill_tables ?params ?vals inc = Inr (diffmax, values)"
    and inv: "\<And>i. i < length param_table \<Longrightarrow>
                 map_of diffmax (?params ! i) = Some (?vals ! i * inc) \<and>
                 map_of values (?params ! i) = Some (?vals ! i)"
    unfolding fill_tables_def by auto
  from assms(2) obtain i where i: "i < length param_table" "param_table ! i = (p, v)"
    by (auto simp: in_set_conv_nth)
  from inv [OF i(1)] i have "map_of diffmax p = Some (v * inc)" "map_of values p = Some v"
    by simp_all
  with run show ?thesis
    by (simp add: load_params_def)
qed

theorem diffmax_is_value_times_inc_witness:
  "distinct (map fst [(''a'', 2), (''b'', -1::real)]) \<and>
   (''a'', 2) \<in> set [(''a'', 2), (''b'', -1::real)] \<and>
   fill_tables (fst (load_params [(''a'', 2), (''b'', -1)]))
               (snd (load_params [(''a'', 2), (''b'', -1)])) (1/10)
     = Inr ([(''a'', 1/5), (''b'', -1/10)], [(''a'', 2), (''b'', -1)]) \<and>
   map_of [(''a'', 1/5), (''b'', -1/10 :: real)] ''a'' = Some (2 * (1/10)) \<and>
   (0::real) \<le> 2 * (1/10)"
  using diffmax_is_value_times_inc [of "[(''a'', 2), (''b'', -1)]" "''a''" "2" "1/10"]
  by (simp add: fill_tables_def load_params_def index_def upt_rec)

text \<open>
  The claim as stated fails for a parameter with a negative current value: its maximum
  change is negative.
\<close>

theorem diffmax_negative_counterexample:
  "fill_tables (fst (load_params [(''a'', 2), (''b'', -1)]))
               (snd (load_params [(''a'', 2), (''b'', -1)])) (1/10)
     = Inr ([(''a'', 1/5), (''b'', -1/10)], [(''a'', 2), (''b'', -1)]) \<and>
   map_of [(''a'', 1/5), (''b'', -1/10 :: real)] ''b'' = Some (-1 * (1/10)) \<and>
   \<not> (0 \<le> (-1 * (1/10) :: real))"
  by (simp add: fill_tables_def load_params_def index_def upt_rec)


section \<open>Zero reference values and zero current values\<close>

lemma not_fin_np_add: "\<not> is_fin a \<or> \<not> is_fin b \<Longrightarrow> \<not> is_fin (np_add a b)"
  by (cases a; cases b) (simp_all add: is_fin_def)

lemma not_fin_np_scale: "\<not> is_fin x \<Longrightarrow> \<not> is_fin (np_scale x p)"
  by (cases x) (simp_all add: is_fin_def)

lemma not_fin_div_zero: "\<not> is_fin (np_div a 0)" "\<not> is_fin (np_square (np_div a 0))"
  by (simp_all add: np_div_def is_fin_def)

lemma fold_err_preserves:
  assumes "fold_err f a xs = Inr r" and "P a"
    and "\<And>a x b. f a x = Inr b \<Longrightarrow> P a \<Longrightarrow> P b"
  shows "P r"
  using assms(1,2)
proof (induction xs arbitrary: a)
  case Nil
  then show ?case by simp
next
  case (Cons y ys)
  from Cons.prems(1) obtain b where b: "f a y = Inr b" and r: "fold_err f b ys = Inr r"
    by (auto split: sum.splits)
  from assms(3) [OF b Cons.prems(2)] have "P b" .
  with r show ?case by (rule Cons.IH)
qed

lemma fold_err_establishes:
  assumes "fold_err f a xs = Inr r" and "x0 \<in> set xs"
    and "\<And>a b. f a x0 = Inr b \<Longrightarrow> P b"
    and "\<And>a x b. f a x = Inr b \<Longrightarrow> P a \<Longrightarrow> P b"
  shows "P r"
  using assms(1,2)
proof (induction xs arbitrary: a)
  case Nil
  then show ?case by simp
next
  case (Cons y ys)
  from Cons.prems(1) obtain b where b: "f a y = Inr b" and r: "fold_err f b ys = Inr r"
    by (auto split: sum.splits)
  show ?case
  proof (cases "x0 = y")
    case True
    with b assms(3) have "P b" by simp
    with r show ?thesis using assms(4) by (rule fold_err_preserves)
  next
    case False
    with Cons.prems(2) have "x0 \<in> set ys" by simp
    with r show ?thesis by (rule Cons.IH)
  qed
qed

text \<open>With a zero reference value among the parameters the sum of squares is not finite.\<close>

lemma param_difference_zero_reference:
  assumes "param_difference changes params values reference_pars = Inr pd"
    and "p \<in> set params" and "map_of reference_pars p = Some 0"
  shows "\<not> is_fin pd"
proof -
  let ?f = "\<lambda>acc (i, param).
        ebind (lookup reference_pars param) (\<lambda>r.
        ebind (lookup values param) (\<lambda>v.
        ebind (index changes i) (\<lambda>x.
          Inr (np_add acc (np_square (np_div (r - (v + x)) r))))))"
  from assms(2) obtain i where i: "i < length params" "params ! i = p"
    by (auto simp: in_set_conv_nth)
  then have mem: "(i, p) \<in> set (enumerate 0 params)"
    by (simp add: enumerate_index)
  have here: "\<not> is_fin b" if "?f a (i, p) = Inr b" for a b
    using that assms(3)
    by (auto simp: ebind_Inr_iff lookup_def not_fin_np_add not_fin_div_zero)
  have keep: "\<not> is_fin b" if "?f a x = Inr b" and "\<not> is_fin a" for a x b
    using that by (cases x) (auto simp: ebind_Inr_iff not_fin_np_add)
  from assms(1) show ?thesis
    unfolding param_difference_def
    by (rule fold_err_establishes [where f = ?f and P = "\<lambda>x. \<not> is_fin x", OF _ mem here keep])
qed

lemma param_difference_total:
  assumes "penalty_data_present changes params values reference_pars"
  shows "\<exists>pd. param_difference changes params values reference_pars = Inr pd"
  unfolding param_difference_def
proof (rule fold_err_total)
  fix x :: "nat \<times> string" and a
  assume "x \<in> set (enumerate 0 params)"
  moreover obtain i p where x: "x = (i, p)" by (cases x)
  ultimately have i: "i < length params" and p: "p \<in> set params"
    by (auto simp: enumerate_index)
  with assms obtain r v where "map_of reference_pars p = Some r" "map_of values p = Some v"
    and "i < length changes"
    by (auto simp: penalty_data_present_def list_all_iff)
  then show "\<exists>b. (case x of (i, param) \<Rightarrow>
        ebind (lookup reference_pars param) (\<lambda>r.
        ebind (lookup values param) (\<lambda>v.
        ebind (index changes i) (\<lambda>x.
          Inr (np_add a (np_square (np_div (r - (v + x)) r))))))) = Inr b"
    by (simp add: x lookup_def index_def)
qed

lemma fold_err_append_rows:
  assumes "\<And>x a. x \<in> set xs \<Longrightarrow> f a x = Inr (a @ [g x])"
  shows "fold_err f a xs = Inr (a @ map g xs)"
  using assms by (induction xs arbitrary: a) auto

text \<open>The final table when nothing is missing: one row per changed parameter.\<close>

lemma report_rows_value:
  assumes "report_data_present optimal_changes values diffmax"
  shows "report_rows optimal_changes values diffmax =
           Inr (map (\<lambda>(p, c). (p, dict_get values p 0 + c, dict_get values p 0, c,
                               np_div c (dict_get values p 0), dict_get diffmax p 0))
                  optimal_changes)"
proof -
  let ?f = "\<lambda>outtable (p, c).
        ebind (lookup values p) (\<lambda>v.
        ebind (lookup diffmax p) (\<lambda>m.
          Inr (outtable @ [(p, v + c, v, c, np_div c v, m)])))"
  let ?g = "\<lambda>(p, c). (p, dict_get values p 0 + c, dict_get values p 0, c,
                               np_div c (dict_get values p 0), dict_get diffmax p 0)"
  have step: "?f a x = Inr (a @ [?g x])" if "x \<in> set optimal_changes" for x a
  proof -
    obtain p c where x: "x = (p, c)" by (cases x)
    with that assms obtain v m where "map_of values p = Some v" "map_of diffmax p = Some m"
      by (auto simp: report_data_present_def list_all_iff)
    then show ?thesis by (simp add: x lookup_def dict_get_def)
  qed
  show ?thesis
    unfolding report_rows_def
    using fold_err_append_rows [where f = ?f and g = ?g and a = "[]"
        and xs = optimal_changes, OF step]
    by simp
qed

text \<open>
  Whether the steps before the solver call end without error is decided by
  \<open>print_change\<close> alone, which reads the names of the parameters and not their values.
\<close>

lemma main_setup_succeeds:
  "succeeds (main_setup inp) =
     succeeds (print_change (map fst (in_weights_flux inp))
                 (compute_difference (in_base inp) (in_reference inp)) (in_sensitivity inp)
                 (map fst (in_param_table inp))
                 (replicate (length (in_param_table inp)) 0))"
proof -
  have "\<exists>r. fill_tables (map fst (in_param_table inp)) (map snd (in_param_table inp))
               (in_inc inp) = Inr r"
    unfolding fill_tables_def
    by (rule fold_err_total) (auto simp: index_def)
  then obtain diffmax "values" where
    "fill_tables (map fst (in_param_table inp)) (map snd (in_param_table inp)) (in_inc inp)
       = Inr (diffmax, values)"
    by (cases) auto
  then show ?thesis
    by (cases "print_change (map fst (in_weights_flux inp))
                 (compute_difference (in_base inp) (in_reference inp)) (in_sensitivity inp)
                 (map fst (in_param_table inp))
                 (replicate (length (in_param_table inp)) 0)")
       (simp_all add: main_setup_def load_params_def succeeds_def)
qed

text \<open>
  C2 (as amended). The program never detects a zero reference value or a zero current
  value, and never aborts because of one. The steps between loading the files and
  calling the solver do not read the reference values, and whether they end without
  error does not depend on the current values. With a parameter of reference value
  zero, every score that the objective function returns is an infinity or NaN, and it
  does return one whenever the flux term is computed and the penalty lookups succeed.
  With a parameter of current value zero, the final table is built, and the relative
  change in the row of that parameter is an infinity or NaN.
\<close>

theorem zero_values_not_validated:
  "main_setup (inp\<lparr>in_reference_pars := rp\<rparr>) = main_setup inp \<and>
   (map fst param_table = map fst (in_param_table inp) \<longrightarrow>
      succeeds (main_setup (inp\<lparr>in_param_table := param_table\<rparr>)) = succeeds (main_setup inp)) \<and>
   (p \<in> set params \<and> map_of reference_pars p = Some 0 \<longrightarrow>
      (\<forall>score. objective_function changes params values reference_pars penalty sensitivity
                 difference weights_flux weights_season weights_region = Inr score
               \<longrightarrow> \<not> is_fin score) \<and>
      (penalty_data_present changes params values reference_pars \<and>
       succeeds (flux_term changes params sensitivity difference
                   weights_flux weights_season weights_region)
       \<longrightarrow> succeeds (objective_function changes params values reference_pars penalty
                       sensitivity difference weights_flux weights_season weights_region))) \<and>
   ((p, c) \<in> set optimal_changes \<and> map_of values p = Some 0 \<and>
    report_data_present optimal_changes values diffmax \<longrightarrow>
      (\<exists>rows. report_rows optimal_changes values diffmax = Inr rows \<and>
              (p, c, 0, c, np_div c 0, dict_get diffmax p 0) \<in> set rows \<and>
              \<not> is_fin (np_div c 0)))"
proof (intro conjI impI allI)
  show "main_setup (inp\<lparr>in_reference_pars := rp\<rparr>) = main_setup inp"
    by (simp add: main_setup_def)
  show "succeeds (main_setup (inp\<lparr>in_param_table := param_table\<rparr>)) = succeeds (main_setup inp)"
    if "map fst param_table = map fst (in_param_table inp)"
  proof -
    from that have "length param_table = length (in_param_table inp)"
      by (metis length_map)
    with that show ?thesis by (simp add: main_setup_succeeds)
  qed
  show "\<not> is_fin score"
    if zero: "p \<in> set params \<and> map_of reference_pars p = Some 0"
      and score: "objective_function changes params values reference_pars penalty sensitivity
                 difference weights_flux weights_season weights_region = Inr score"
    for score
  proof -
    from score obtain td pd where
      pd: "param_difference changes params values reference_pars = Inr pd"
      and s: "score = np_add (Fin td) (np_scale pd penalty)"
      by (auto simp: objective_function_def ebind_Inr_iff)
    from zero have "p \<in> set params" and "map_of reference_pars p = Some 0" by simp_all
    with pd have "\<not> is_fin pd" by (rule param_difference_zero_reference)
    then show ?thesis by (simp add: s not_fin_np_add not_fin_np_scale)
  qed
  show "succeeds (objective_function changes params values reference_pars penalty
                       sensitivity difference weights_flux weights_season weights_region)"
    if "penalty_data_present changes params values reference_pars \<and>
       succeeds (flux_term changes params sensitivity difference
                   weights_flux weights_season weights_region)"
  proof -
    from that param_difference_total obtain pd where
      "param_difference changes params values reference_pars = Inr pd" by blast
    moreover from that obtain td where
      "flux_term changes params sensitivity difference
                   weights_flux weights_season weights_region = Inr td"
      by (auto simp: succeeds_def split: sum.splits)
    ultimately show ?thesis by (simp add: objective_function_def succeeds_def)
  qed
  show "\<exists>rows. report_rows optimal_changes values diffmax = Inr rows \<and>
              (p, c, 0, c, np_div c 0, dict_get diffmax p 0) \<in> set rows \<and>
              \<not> is_fin (np_div c 0)"
    if "(p, c) \<in> set optimal_changes \<and> map_of values p = Some 0 \<and>
        report_data_present optimal_changes values diffmax"
  proof -
    let ?g = "\<lambda>(p, c). (p, dict_get values p 0 + c, dict_get values p 0, c,
                               np_div c (dict_get values p 0), dict_get diffmax p 0)"
    from that have "(p, c) \<in> set optimal_changes" by simp
    then have "?g (p, c) \<in> ?g ` set optimal_changes" by (rule imageI)
    then have "?g (p, c) \<in> set (map ?g optimal_changes)" by (simp only: set_map)
    moreover from that have "?g (p, c) = (p, c, 0, c, np_div c 0, dict_get diffmax p 0)"
      by (simp add: dict_get_def)
    ultimately show ?thesis
      using that report_rows_value [of optimal_changes "values" diffmax]
      by (simp add: not_fin_div_zero)
  qed
qed

text \<open>
  A run with a parameter \<open>a\<close> of reference value zero and a parameter \<open>b\<close> of current
  value zero: the steps before the solver call end without error, nothing is detected,
  and the score of the initial guess is plus infinity.
\<close>

theorem zero_reference_counterexample:
  "main_setup \<lparr> in_inc = 1/10, in_penalty = 1/100,
       in_reference_pars = [(''a'', 0), (''b'', 1/2)],
       in_weights_flux = [(''tas'', 1)], in_weights_region = [(''Global'', 1)],
       in_weights_season = [(''ALL'', 1)],
       in_sensitivity = [(''a'', [(''tas'', [(''ALL'', [(''Global'', [-10])])])]),
                         (''b'', [(''tas'', [(''ALL'', [(''Global'', [2])])])])],
       in_reference = [(''tas'', [(''ALL'', [(''Global'', Num 1)])])],
       in_base = [(''tas'', [(''ALL'', [(''Global'', Num (3/2))])])],
       in_param_table = [(''a'', 3/50), (''b'', 0)] \<rparr> = Inr \<lparr> pr_params = [''a'', ''b''], pr_values = [(''a'', 3/50), (''b'', 0)],
       pr_diffmax = [(''a'', 3/500), (''b'', 0)],
       pr_difference = [(''tas'', [(''ALL'', [(''Global'', Num (1/2))])])],
       pr_initial_guess = [0, 0],
       pr_logged = [(''tas'', ''Global'', 1/2)] \<rparr> \<and>
   map_of (in_reference_pars \<lparr> in_inc = 1/10, in_penalty = 1/100,
       in_reference_pars = [(''a'', 0), (''b'', 1/2)],
       in_weights_flux = [(''tas'', 1)], in_weights_region = [(''Global'', 1)],
       in_weights_season = [(''ALL'', 1)],
       in_sensitivity = [(''a'', [(''tas'', [(''ALL'', [(''Global'', [-10])])])]),
                         (''b'', [(''tas'', [(''ALL'', [(''Global'', [2])])])])],
       in_reference = [(''tas'', [(''ALL'', [(''Global'', Num 1)])])],
       in_base = [(''tas'', [(''ALL'', [(''Global'', Num (3/2))])])],
       in_param_table = [(''a'', 3/50), (''b'', 0)] \<rparr>) ''a'' = Some 0 \<and>
   map_of (in_param_table \<lparr> in_inc = 1/10, in_penalty = 1/100,
       in_reference_pars = [(''a'', 0), (''b'', 1/2)],
       in_weights_flux = [(''tas'', 1)], in_weights_region = [(''Global'', 1)],
       in_weights_season = [(''ALL'', 1)],
       in_sensitivity = [(''a'', [(''tas'', [(''ALL'', [(''Global'', [-10])])])]),
                         (''b'', [(''tas'', [(''ALL'', [(''Global'', [2])])])])],
       in_reference = [(''tas'', [(''ALL'', [(''Global'', Num 1)])])],
       in_base = [(''tas'', [(''ALL'', [(''Global'', Num (3/2))])])],
       in_param_table = [(''a'', 3/50), (''b'', 0)] \<rparr>) ''b'' = Some 0 \<and>
   initial_score \<lparr> in_inc = 1/10, in_penalty = 1/100,
       in_reference_pars = [(''a'', 0), (''b'', 1/2)],
       in_weights_flux = [(''tas'', 1)], in_weights_region = [(''Global'', 1)],
       in_weights_season = [(''ALL'', 1)],
       in_sensitivity = [(''a'', [(''tas'', [(''ALL'', [(''Global'', [-10])])])]),
                         (''b'', [(''tas'', [(''ALL'', [(''Global'', [2])])])])],
       in_reference = [(''tas'', [(''ALL'', [(''Global'', Num 1)])])],
       in_base = [(''tas'', [(''ALL'', [(''Global'', Num (3/2))])])],
       in_param_table = [(''a'', 3/50), (''b'', 0)] \<rparr> \<lparr> pr_params = [''a'', ''b''], pr_values = [(''a'', 3/50), (''b'', 0)],
       pr_diffmax = [(''a'', 3/500), (''b'', 0)],
       pr_difference = [(''tas'', [(''ALL'', [(''Global'', Num (1/2))])])],
       pr_initial_guess = [0, 0],
       pr_logged = [(''tas'', ''Global'', 1/2)] \<rparr> = Inr PosInf"
  by (simp add: main_setup_def load_params_def compute_difference_def diff_seasons_def
        diff_regions_def List.map_filter_simps fill_tables_def index_def upt_rec
        print_change_def lookup_def flux_change_def coefficient_def enumerate_eq_zip
        initial_score_def objective_function_def flux_term_def triples_of_def
        flux_step_def bias_get_def dict_get_def param_difference_def np_div_def)

theorem zero_values_not_validated_witness:
  "''a'' \<in> set [''a'', ''b''] \<and> map_of [(''a'', 0), (''b'', 1/2 :: real)] ''a'' = Some 0 \<and>
   penalty_data_present [0, 0] [''a'', ''b''] [(''a'', 3/50), (''b'', 0)] [(''a'', 0), (''b'', 1/2)] \<and>
   succeeds (flux_term [0, 0] [''a'', ''b'']
      [(''a'', [(''tas'', [(''ALL'', [(''Global'', [-10])])])]),
       (''b'', [(''tas'', [(''ALL'', [(''Global'', [2])])])])]
      [(''tas'', [(''ALL'', [(''Global'', Num (1/2))])])]
      [(''tas'', 1)] [(''ALL'', 1)] [(''Global'', 1)]) \<and>
   objective_function [0, 0] [''a'', ''b''] [(''a'', 3/50), (''b'', 0)]
      [(''a'', 0), (''b'', 1/2)] (1/100)
      [(''a'', [(''tas'', [(''ALL'', [(''Global'', [-10])])])]),
       (''b'', [(''tas'', [(''ALL'', [(''Global'', [2])])])])]
      [(''tas'', [(''ALL'', [(''Global'', Num (1/2))])])]
      [(''tas'', 1)] [(''ALL'', 1)] [(''Global'', 1)] = Inr PosInf \<and>
   (''b'', 1/100) \<in> set [(''a'', 3/500), (''b'', 1/100 :: real)] \<and>
   map_of [(''a'', 3/50), (''b'', 0 :: real)] ''b'' = Some 0 \<and>
   report_data_present [(''a'', 3/500), (''b'', 1/100)] [(''a'', 3/50), (''b'', 0)]
      [(''a'', 3/500), (''b'', 0)] \<and>
   report_rows [(''a'', 3/500), (''b'', 1/100)] [(''a'', 3/50), (''b'', 0)]
      [(''a'', 3/500), (''b'', 0)] = Inr [(''a'', 33/500, 3/50, 3/500, Fin (1/10), 3/500),
              (''b'', 1/100, 0, 1/100, PosInf, 0)]"
proof -
  have z: "''a'' \<in> set [''a'', ''b''] \<and> map_of [(''a'', 0), (''b'', 1/2 :: real)] ''a'' = Some 0"
    by simp
  have pp: "penalty_data_present [0, 0] [''a'', ''b''] [(''a'', 3/50), (''b'', 0)]
      [(''a'', 0), (''b'', 1/2)]"
    by (simp add: penalty_data_present_def del: not_None_eq)
  have fl: "succeeds (flux_term [0, 0] [''a'', ''b'']
      [(''a'', [(''tas'', [(''ALL'', [(''Global'', [-10])])])]),
       (''b'', [(''tas'', [(''ALL'', [(''Global'', [2])])])])]
      [(''tas'', [(''ALL'', [(''Global'', Num (1/2))])])]
      [(''tas'', 1)] [(''ALL'', 1)] [(''Global'', 1)])"
    by (simp add: succeeds_def flux_term_def triples_of_def flux_step_def bias_get_def
          dict_get_def lookup_def flux_change_def coefficient_def enumerate_eq_zip index_def)
  note t = zero_values_not_validated [where p = "''a''" and params = "[''a'', ''b'']"
      and reference_pars = "[(''a'', 0), (''b'', 1/2)]", THEN conjunct2, THEN conjunct2,
      THEN conjunct1, rule_format, OF z]
  have "succeeds (objective_function [0, 0] [''a'', ''b''] [(''a'', 3/50), (''b'', 0)]
      [(''a'', 0), (''b'', 1/2)] (1/100)
      [(''a'', [(''tas'', [(''ALL'', [(''Global'', [-10])])])]),
       (''b'', [(''tas'', [(''ALL'', [(''Global'', [2])])])])]
      [(''tas'', [(''ALL'', [(''Global'', Num (1/2))])])]
      [(''tas'', 1)] [(''ALL'', 1)] [(''Global'', 1)])"
    by (rule t [THEN conjunct2, rule_format]) (use pp fl in simp)
  moreover have "\<not> is_fin score" if "objective_function [0, 0] [''a'', ''b''] [(''a'', 3/50), (''b'', 0)]
      [(''a'', 0), (''b'', 1/2)] (1/100)
      [(''a'', [(''tas'', [(''ALL'', [(''Global'', [-10])])])]),
       (''b'', [(''tas'', [(''ALL'', [(''Global'', [2])])])])]
      [(''tas'', [(''ALL'', [(''Global'', Num (1/2))])])]
      [(''tas'', 1)] [(''ALL'', 1)] [(''Global'', 1)] = Inr score" for score
    using that by (rule t [THEN conjunct1, rule_format])
  ultimately have o: "objective_function [0, 0] [''a'', ''b''] [(''a'', 3/50), (''b'', 0)]
      [(''a'', 0), (''b'', 1/2)] (1/100)
      [(''a'', [(''tas'', [(''ALL'', [(''Global'', [-10])])])]),
       (''b'', [(''tas'', [(''ALL'', [(''Global'', [2])])])])]
      [(''tas'', [(''ALL'', [(''Global'', Num (1/2))])])]
      [(''tas'', 1)] [(''ALL'', 1)] [(''Global'', 1)] = Inr PosInf"
    by (simp add: objective_function_def flux_term_def triples_of_def
          flux_step_def bias_get_def dict_get_def param_difference_def lookup_def
          flux_change_def coefficient_def enumerate_eq_zip index_def np_div_def)
  have r: "(''b'', 1/100) \<in> set [(''a'', 3/500), (''b'', 1/100 :: real)] \<and>
      map_of [(''a'', 3/50), (''b'', 0 :: real)] ''b'' = Some 0 \<and>
      report_data_present [(''a'', 3/500), (''b'', 1/100)] [(''a'', 3/50), (''b'', 0)]
        [(''a'', 3/500), (''b'', 0)]"
    by (simp add: report_data_present_def del: not_None_eq)
  have "\<exists>rows. report_rows [(''a'', 3/500), (''b'', 1/100)] [(''a'', 3/50), (''b'', 0)]
      [(''a'', 3/500), (''b'', 0)] = Inr rows \<and>
          (''b'', 1/100, 0, 1/100, np_div (1/100) 0, dict_get [(''a'', 3/500), (''b'', 0)] ''b'' 0)
            \<in> set rows \<and> \<not> is_fin (np_div (1/100) 0)"
    by (rule zero_values_not_validated [THEN conjunct2, THEN conjunct2, THEN conjunct2,
          rule_format]) (rule r)
  then have rr: "report_rows [(''a'', 3/500), (''b'', 1/100)] [(''a'', 3/50), (''b'', 0)]
      [(''a'', 3/500), (''b'', 0)] = Inr [(''a'', 33/500, 3/50, 3/500, Fin (1/10), 3/500),
              (''b'', 1/100, 0, 1/100, PosInf, 0)]"
    by (simp add: report_rows_def lookup_def np_div_def)
  from z pp fl o r rr show ?thesis by (simp only: simp_thms)
qed


section \<open>Flux term\<close>

lemma succeeds_projr: "succeeds m \<Longrightarrow> m = Inr (projr m)"
  by (cases m) (simp_all add: succeeds_def)

lemma flux_change_value:
  assumes "length changes = length params"
    and "list_all (\<lambda>p. succeeds (coefficient sensitivity p fluxname season region)) params"
  shows "flux_change changes params sensitivity fluxname season region =
           Inr (\<Sum>(i, p)\<leftarrow>enumerate 0 params.
                  projr (coefficient sensitivity p fluxname season region) * changes ! i)"
proof -
  let ?f = "\<lambda>acc (i, param).
        ebind (coefficient sensitivity param fluxname season region) (\<lambda>c.
        ebind (index changes i) (\<lambda>x. Inr (acc + c * x)))"
  let ?g = "\<lambda>(i, p). projr (coefficient sensitivity p fluxname season region) * changes ! i"
  have step: "?f a x = Inr (a + ?g x)" if "x \<in> set (enumerate 0 params)" for x a
  proof -
    obtain i p where x: "x = (i, p)" by (cases x)
    with that have i: "i < length params" and p: "params ! i = p"
      by (simp_all add: enumerate_index)
    then have "p \<in> set params" by auto
    with assms(2) have "succeeds (coefficient sensitivity p fluxname season region)"
      by (simp add: list_all_iff)
    from succeeds_projr [OF this] i assms(1) show ?thesis
      by (cases "coefficient sensitivity p fluxname season region")
         (simp_all add: x index_def)
  qed
  show ?thesis
    unfolding flux_change_def
    using fold_err_sum [where f = ?f and g = ?g and a = 0 and xs = "enumerate 0 params", OF step]
    by simp
qed

text \<open>What a visited triple adds to \<open>total_difference\<close> when nothing is missing.\<close>

lemma flux_step_value:
  assumes "length changes = length params"
    and "triple_ok params sensitivity difference weights_flux weights_season weights_region
           (fluxname, season, region)"
  shows "flux_step changes params sensitivity difference weights_flux weights_season
           weights_region total_difference (fluxname, season, region) =
         Inr (total_difference +
           (case bias_get difference fluxname season region of
              NaN \<Rightarrow> 0
            | Num b \<Rightarrow>
                dict_get weights_flux fluxname 0 * dict_get weights_region region 0 *
                dict_get weights_season season 0 *
                (b + (\<Sum>(i, p)\<leftarrow>enumerate 0 params.
                  projr (coefficient sensitivity p fluxname season region) * changes ! i))\<^sup>2))"
proof (cases "bias_get difference fluxname season region")
  case NaN
  then show ?thesis by (simp add: flux_step_def)
next
  case (Num b)
  with assms(2) have w: "map_of weights_flux fluxname \<noteq> None"
      "map_of weights_region region \<noteq> None" "map_of weights_season season \<noteq> None"
    and c: "list_all (\<lambda>p. succeeds (coefficient sensitivity p fluxname season region)) params"
    by (simp_all add: triple_ok_def)
  show ?thesis
    using Num flux_change_value [OF assms(1) c]
      lookup_dict_get [OF w(1), of 0] lookup_dict_get [OF w(2), of 0]
      lookup_dict_get [OF w(3), of 0]
    by (simp add: flux_step_def)
qed

text \<open>The value of the flux term for complete model data.\<close>

lemma flux_term_value:
  assumes "valid_flux_data changes params sensitivity difference
             weights_flux weights_season weights_region"
  shows "flux_term changes params sensitivity difference weights_flux weights_season
           weights_region =
         Inr (\<Sum>(fluxname, season, region)\<leftarrow>triples_of (dict_get sensitivity (hd params) []).
           (case bias_get difference fluxname season region of
              NaN \<Rightarrow> 0
            | Num b \<Rightarrow>
                dict_get weights_flux fluxname 0 * dict_get weights_region region 0 *
                dict_get weights_season season 0 *
                (b + (\<Sum>(i, p)\<leftarrow>enumerate 0 params.
                  projr (coefficient sensitivity p fluxname season region) * changes ! i))\<^sup>2))"
proof -
  let ?g = "\<lambda>(fluxname, season, region).
           (case bias_get difference fluxname season region of
              NaN \<Rightarrow> 0
            | Num b \<Rightarrow>
                dict_get weights_flux fluxname 0 * dict_get weights_region region 0 *
                dict_get weights_season season 0 *
                (b + (\<Sum>(i, p)\<leftarrow>enumerate 0 params.
                  projr (coefficient sensitivity p fluxname season region) * changes ! i))\<^sup>2)"
  from assms obtain p0 ps tab where
    params: "params = p0 # ps" and tab: "map_of sensitivity p0 = Some tab"
    and ok: "list_all (triple_ok params sensitivity difference
                            weights_flux weights_season weights_region) (triples_of tab)"
    and len: "length changes = length params"
    by (auto simp: valid_flux_data_def split: list.splits option.splits)
  have step: "flux_step changes params sensitivity difference weights_flux weights_season
           weights_region a t = Inr (a + ?g t)" if "t \<in> set (triples_of tab)" for t a
  proof -
    obtain f s r where t: "t = (f, s, r)" by (cases t)
    from ok that have "triple_ok params sensitivity difference
                            weights_flux weights_season weights_region t"
      by (simp add: list_all_iff)
    from flux_step_value [OF len this [unfolded t]] show ?thesis by (simp add: t)
  qed
  have "flux_term changes params sensitivity difference weights_flux weights_season
           weights_region = Inr (0 + sum_list (map ?g (triples_of tab)))"
    unfolding flux_term_def
    using fold_err_sum [where f = "flux_step changes params sensitivity difference
         weights_flux weights_season weights_region" and g = ?g and a = 0
         and xs = "triples_of tab", OF step]
    by (simp add: params index_def lookup_def tab)
  then show ?thesis
    by (simp add: params dict_get_def tab)
qed

lemma dict_get_nonneg:
  assumes "nonneg_weights w"
  shows "0 \<le> dict_get w k 0"
proof (cases "map_of w k")
  case None
  then show ?thesis by (simp add: dict_get_def)
next
  case (Some x)
  then have "(k, x) \<in> set w" by (rule map_of_SomeD)
  with assms have "0 \<le> x" by (auto simp: nonneg_weights_def list_all_iff)
  with Some show ?thesis by (simp add: dict_get_def)
qed

text \<open>
  C5. For valid model data (a change vector with one entry per parameter, at least one
  parameter, non-negative weights, a positive penalty coefficient, current values
  present, reference values present and non-zero, and the weights and sensitivity
  coefficients present for every visited triple with a defined bias) the objective
  function returns a score, and the score is a non-negative real number.
\<close>

theorem objective_function_nonneg:
  assumes "valid_model changes params values reference_pars penalty sensitivity difference
             weights_flux weights_season weights_region"
  shows "\<exists>score. objective_function changes params values reference_pars penalty sensitivity
                    difference weights_flux weights_season weights_region = Inr (Fin score) \<and>
                 0 \<le> score"
proof -
  from assms have vf: "valid_flux_data changes params sensitivity difference
             weights_flux weights_season weights_region"
    and vp: "valid_penalty_data changes params values reference_pars"
    and pen: "0 < penalty"
    by (simp_all add: valid_model_def)
  from vf have nn: "nonneg_weights weights_flux" "nonneg_weights weights_season"
      "nonneg_weights weights_region"
    by (simp_all add: valid_flux_data_def)
  let ?g = "\<lambda>(fluxname, season, region).
           (case bias_get difference fluxname season region of
              NaN \<Rightarrow> 0
            | Num b \<Rightarrow>
                dict_get weights_flux fluxname 0 * dict_get weights_region region 0 *
                dict_get weights_season season 0 *
                (b + (\<Sum>(i, p)\<leftarrow>enumerate 0 params.
                  projr (coefficient sensitivity p fluxname season region) * changes ! i))\<^sup>2)"
  let ?h = "\<lambda>(i, p). ((dict_get reference_pars p 0 - (dict_get values p 0 + changes ! i))
                     / dict_get reference_pars p 0)\<^sup>2"
  let ?td = "sum_list (map ?g (triples_of (dict_get sensitivity (hd params) [])))"
  let ?pd = "sum_list (map ?h (enumerate 0 params))"
  have "0 \<le> ?g t" for t
    using dict_get_nonneg [OF nn(1)] dict_get_nonneg [OF nn(2)] dict_get_nonneg [OF nn(3)]
    by (cases t) (auto split: pyfloat.splits)
  then have td: "0 \<le> ?td" by (intro sum_list_nonneg) auto
  have "0 \<le> ?h x" for x by (cases x) simp
  then have pd: "0 \<le> ?pd" by (intro sum_list_nonneg) auto
  have "objective_function changes params values reference_pars penalty sensitivity
          difference weights_flux weights_season weights_region
          = Inr (Fin (?td + ?pd * penalty))"
    unfolding objective_function_def
    by (simp add: flux_term_value [OF vf] param_difference_value [OF vp])
  moreover have "0 \<le> ?td + ?pd * penalty"
    using td pd pen by simp
  ultimately show ?thesis by blast
qed

theorem objective_function_nonneg_witness:
  "valid_model [3/500] [''ocean_albedo''] [(''ocean_albedo'', 3/50)] [(''ocean_albedo'', 3/50)]
      (1/100) [(''ocean_albedo'', [(''tas'', [(''ALL'', [(''Global'', [-10])])])])]
      [(''tas'', [(''ALL'', [(''Global'', Num (1/2))])])]
      [(''tas'', 1)] [(''ALL'', 1)] [(''Global'', 1)] \<and>
   objective_function [3/500] [''ocean_albedo''] [(''ocean_albedo'', 3/50)]
      [(''ocean_albedo'', 3/50)] (1/100)
      [(''ocean_albedo'', [(''tas'', [(''ALL'', [(''Global'', [-10])])])])]
      [(''tas'', [(''ALL'', [(''Global'', Num (1/2))])])]
      [(''tas'', 1)] [(''ALL'', 1)] [(''Global'', 1)] = Inr (Fin (1937/10000)) \<and>
   (0::real) \<le> 1937/10000"
proof -
  have v: "valid_model [3/500] [''ocean_albedo''] [(''ocean_albedo'', 3/50)]
      [(''ocean_albedo'', 3/50)]
      (1/100) [(''ocean_albedo'', [(''tas'', [(''ALL'', [(''Global'', [-10])])])])]
      [(''tas'', [(''ALL'', [(''Global'', Num (1/2))])])]
      [(''tas'', 1)] [(''ALL'', 1)] [(''Global'', 1)]"
    by (simp add: valid_model_def valid_flux_data_def valid_penalty_data_def
          nonneg_weights_def triples_of_def triple_ok_def bias_get_def dict_get_def
          succeeds_def coefficient_def lookup_def index_def del: not_None_eq)
  have e: "objective_function [3/500] [''ocean_albedo''] [(''ocean_albedo'', 3/50)]
      [(''ocean_albedo'', 3/50)] (1/100)
      [(''ocean_albedo'', [(''tas'', [(''ALL'', [(''Global'', [-10])])])])]
      [(''tas'', [(''ALL'', [(''Global'', Num (1/2))])])]
      [(''tas'', 1)] [(''ALL'', 1)] [(''Global'', 1)] = Inr (Fin (1937/10000))"
    by (simp add: objective_function_def flux_term_def triples_of_def
        flux_step_def bias_get_def dict_get_def param_difference_def lookup_def
        flux_change_def coefficient_def enumerate_eq_zip index_def np_div_def
          power2_eq_square)
  from objective_function_nonneg [OF v] e have "(0::real) \<le> 1937/10000" by simp
  with v e show ?thesis by simp
qed

section \<open>The flux term at the zero change vector\<close>

lemma distinct_concat_map_tagged:
  assumes "distinct (map fst xs)"
    and "\<And>k v. (k, v) \<in> set xs \<Longrightarrow> distinct (F k v)"
    and "\<And>k v t. (k, v) \<in> set xs \<Longrightarrow> t \<in> set (F k v) \<Longrightarrow> tag t = k"
  shows "distinct (concat (map (\<lambda>(k, v). F k v) xs))"
  using assms
proof (induction xs)
  case Nil
  show ?case by simp
next
  case (Cons x xs)
  obtain k v where x: "x = (k, v)" by (cases x)
  have rest: "distinct (concat (map (\<lambda>(k, v). F k v) xs))"
  proof (rule Cons.IH)
    show "distinct (map fst xs)" using Cons.prems(1) by simp
    show "distinct (F k v)" if "(k, v) \<in> set xs" for k v
      using Cons.prems(2) that by simp
    show "tag t = k" if "(k, v) \<in> set xs" "t \<in> set (F k v)" for k v t
      using Cons.prems(3) [of k v t] that by simp
  qed
  have here: "distinct (F k v)"
    using Cons.prems(2) [of k v] by (simp add: x)
  have "tag t \<noteq> k" if "t \<in> set (concat (map (\<lambda>(k, v). F k v) xs))" for t
  proof -
    from that obtain k' v' where kv: "(k', v') \<in> set xs" and t: "t \<in> set (F k' v')"
      by auto
    then have "tag t = k'" using Cons.prems(3) [of k' v' t] by simp
    moreover from kv Cons.prems(1) have "k' \<noteq> k" by (force simp: x)
    ultimately show ?thesis by simp
  qed
  moreover have "tag t = k" if "t \<in> set (F k v)" for t
    using Cons.prems(3) [of k v t] that by (simp add: x)
  ultimately have "set (F k v) \<inter> set (concat (map (\<lambda>(k, v). F k v) xs)) = {}"
    by blast
  with rest here show ?case by (simp add: x)
qed

lemma distinct_triples_of:
  assumes "distinct_keys3 tab"
  shows "distinct (triples_of tab)"
proof -
  have l3: "distinct (map (\<lambda>(region, _). (f, s, region)) rs)" if "distinct (map fst rs)"
    for f s :: string and rs :: "(string \<times> 'a) list"
    using that by (induction rs) force+
  have l2: "distinct (concat (map (\<lambda>(season, regions).
               map (\<lambda>(region, _). (f, season, region)) regions) ss))"
    if ds: "distinct (map fst ss)"
      and dr: "\<And>s rs. (s, rs) \<in> set ss \<Longrightarrow> distinct (map fst rs)"
    for f :: string and ss :: "(string \<times> (string \<times> 'a) list) list"
  proof (rule distinct_concat_map_tagged [where tag = "\<lambda>t. fst (snd t)"])
    show "distinct (map fst ss)" by (rule ds)
    show "distinct (map (\<lambda>(region, _). (f, k, region)) v)" if "(k, v) \<in> set ss" for k v
      using dr [OF that] by (rule l3)
    show "fst (snd t) = k"
      if "(k, v) \<in> set ss" and "t \<in> set (map (\<lambda>(region, _). (f, k, region)) v)" for k v t
      using that(2) by auto
  qed
  from assms have d1: "distinct (map fst tab)"
    and d2: "\<And>f ss. (f, ss) \<in> set tab \<Longrightarrow> distinct (map fst ss)"
    and d3: "\<And>f ss s rs. (f, ss) \<in> set tab \<Longrightarrow> (s, rs) \<in> set ss \<Longrightarrow> distinct (map fst rs)"
    by (auto simp: distinct_keys3_def list_all_iff)
  show ?thesis
    unfolding triples_of_def
  proof (rule distinct_concat_map_tagged [where tag = fst])
    show "distinct (map fst tab)" by (rule d1)
    show "distinct (concat (map (\<lambda>(season, regions).
             map (\<lambda>(region, _). (k, season, region)) regions) v))"
      if "(k, v) \<in> set tab" for k v
      using d2 [OF that] d3 [OF that] by (rule l2)
    show "fst t = k"
      if "(k, v) \<in> set tab"
        and "t \<in> set (concat (map (\<lambda>(season, regions).
             map (\<lambda>(region, _). (k, season, region)) regions) v))" for k v t
      using that(2) by auto
  qed
qed

lemma in_triples_of:
  "(f, s, r) \<in> set (triples_of tab) \<longleftrightarrow>
     (\<exists>ss rs x. (f, ss) \<in> set tab \<and> (s, rs) \<in> set ss \<and> (r, x) \<in> set rs)"
  unfolding triples_of_def by fastforce

lemma bias_get_in_triples:
  assumes "bias_get difference f s r = Num b"
  shows "(f, s, r) \<in> set (triples_of difference)"
proof -
  from assms obtain ss where ss: "map_of difference f = Some ss"
    by (cases "map_of difference f") (simp_all add: bias_get_def dict_get_def)
  with assms obtain rs where rs: "map_of ss s = Some rs"
    by (cases "map_of ss s") (simp_all add: bias_get_def dict_get_def)
  with assms ss have "map_of rs r = Some (Num b)"
    by (cases "map_of rs r") (simp_all add: bias_get_def dict_get_def)
  with ss rs show ?thesis
    unfolding in_triples_of by (blast dest: map_of_SomeD)
qed

lemma in_set_map_filter:
  "y \<in> set (List.map_filter h xs) \<longleftrightarrow> (\<exists>x\<in>set xs. h x = Some y)"
  by (induction xs) (auto simp: List.map_filter_simps split: option.splits)

lemma in_bias_entries:
  "((f, s, r), b) \<in> set (bias_entries difference) \<longleftrightarrow> bias_get difference f s r = Num b"
proof
  assume "((f, s, r), b) \<in> set (bias_entries difference)"
  then show "bias_get difference f s r = Num b"
    by (auto simp: bias_entries_def in_set_map_filter split: pyfloat.splits)
next
  assume b: "bias_get difference f s r = Num b"
  from bias_get_in_triples [OF this] b
  show "((f, s, r), b) \<in> set (bias_entries difference)"
    by (force simp: bias_entries_def in_set_map_filter)
qed

lemma map_fst_bias_entries:
  "map fst (bias_entries difference) =
     filter (\<lambda>(f, s, r). bias_get difference f s r \<noteq> NaN) (triples_of difference)"
proof -
  have "map fst (List.map_filter (\<lambda>t.
        case t of (fluxname, season, region) \<Rightarrow>
          (case bias_get difference fluxname season region of
             NaN \<Rightarrow> None
           | Num b \<Rightarrow> Some (t, b))) ts) =
     filter (\<lambda>(f, s, r). bias_get difference f s r \<noteq> NaN) ts" for ts
    by (induction ts) (auto simp: List.map_filter_simps split: pyfloat.splits)
  then show ?thesis by (simp add: bias_entries_def)
qed

lemma sum_list_all_zero:
  fixes f :: "'a \<Rightarrow> real"
  assumes "\<And>x. x \<in> set xs \<Longrightarrow> f x = 0"
  shows "sum_list (map f xs) = 0"
  using assms by (induction xs) auto

lemma sum_enumerate_zero:
  fixes c :: "string \<Rightarrow> real"
  shows "(\<Sum>(i, p)\<leftarrow>enumerate 0 params. c p * replicate (length params) 0 ! i) = 0"
  by (rule sum_list_all_zero) (auto simp: in_set_enumerate_eq)

lemma flux_change_at_zero:
  assumes "list_all (\<lambda>p. succeeds (coefficient sensitivity p fluxname season region)) params"
  shows "flux_change (replicate (length params) 0) params sensitivity fluxname season region
           = Inr 0"
  using flux_change_value [of "replicate (length params) 0" params sensitivity fluxname season
      region, OF _ assms]
  by (simp add: sum_enumerate_zero)

text \<open>
  C1. Take valid flux data at the all-zero change vector, with the keys of the bias
  table and of the first parameter's sensitivity table pairwise different at every level
  (as in any dictionary) and every defined bias entry present in that sensitivity table.
  Then the flux change of every visited triple with a defined bias is zero, and the flux
  term is the sum, over the triples with a defined bias entry, of
  \<open>weight_flux * weight_region * weight_season * bias\<^sup>2\<close>.
\<close>

theorem flux_term_at_zero:
  assumes valid: "valid_flux_data (replicate (length params) 0) params sensitivity difference
             weights_flux weights_season weights_region"
    and params: "params = p0 # ps" and tab: "map_of sensitivity p0 = Some tab"
    and dt: "distinct_keys3 tab" and dd: "distinct_keys3 difference"
    and cov: "bias_covered params sensitivity difference"
  shows "flux_term (replicate (length params) 0) params sensitivity difference
           weights_flux weights_season weights_region =
         Inr (\<Sum>e\<leftarrow>bias_entries difference.
                weighted_square weights_flux weights_season weights_region e) \<and>
         (\<forall>t\<in>set (triples_of tab). case t of (fluxname, season, region) \<Rightarrow>
            bias_get difference fluxname season region \<noteq> NaN \<longrightarrow>
            flux_change (replicate (length params) 0) params sensitivity fluxname season region
              = Inr 0)"
proof
  let ?z = "replicate (length params) (0::real)"
  let ?E = "bias_entries difference"
  let ?ws = "weighted_square weights_flux weights_season weights_region"
  let ?g = "\<lambda>(fluxname, season, region).
           (case bias_get difference fluxname season region of
              NaN \<Rightarrow> 0
            | Num b \<Rightarrow>
                dict_get weights_flux fluxname 0 * dict_get weights_region region 0 *
                dict_get weights_season season 0 *
                (b + (\<Sum>(i, p)\<leftarrow>enumerate 0 params.
                  projr (coefficient sensitivity p fluxname season region) * ?z ! i))\<^sup>2)"
  let ?sq = "\<lambda>t. case t of (fluxname, season, region) \<Rightarrow>
           (case bias_get difference fluxname season region of
              NaN \<Rightarrow> 0
            | Num b \<Rightarrow>
                dict_get weights_flux fluxname 0 * dict_get weights_region region 0 *
                dict_get weights_season season 0 * b\<^sup>2)"
  have g: "?g t = ?sq t" for t
    by (cases t) (simp add: sum_enumerate_zero split: pyfloat.splits)
  have ok: "list_all (triple_ok params sensitivity difference
                         weights_flux weights_season weights_region) (triples_of tab)"
    using valid by (simp add: valid_flux_data_def params tab)
  have "flux_term ?z params sensitivity difference weights_flux weights_season weights_region
          = Inr (sum_list (map ?g (triples_of (dict_get sensitivity (hd params) []))))"
    by (rule flux_term_value [OF valid])
  also have "dict_get sensitivity (hd params) [] = tab"
    by (simp add: params dict_get_def tab)
  also have "map ?g (triples_of tab) = map ?sq (triples_of tab)"
    using g by simp
  finally have val: "flux_term ?z params sensitivity difference weights_flux weights_season
      weights_region = Inr (sum_list (map ?sq (triples_of tab)))" .
  have dE: "distinct (map fst ?E)"
    unfolding map_fst_bias_entries using distinct_triples_of [OF dd] by simp
  then have dE': "distinct ?E" by (simp add: distinct_map)
  have inj: "inj_on fst (set ?E)"
    using dE by (simp add: distinct_map)
  have sub: "fst ` set ?E \<subseteq> set (triples_of tab)"
    using cov by (auto simp: bias_covered_def params tab list_all_iff)
  have neutral: "?sq t = 0" if "t \<in> set (triples_of tab) - fst ` set ?E" for t
  proof -
    obtain f s r where t: "t = (f, s, r)" by (cases t)
    show ?thesis
    proof (cases "bias_get difference f s r")
      case NaN
      then show ?thesis by (simp add: t)
    next
      case (Num b)
      then have "((f, s, r), b) \<in> set ?E" by (simp add: in_bias_entries)
      then have "t \<in> fst ` set ?E" by (force simp: t)
      with that show ?thesis by simp
    qed
  qed
  have entry: "?sq (fst e) = ?ws e" if "e \<in> set ?E" for e
  proof -
    obtain f s r b where e: "e = ((f, s, r), b)" by (cases e) auto
    with that have "bias_get difference f s r = Num b" by (simp add: in_bias_entries)
    then show ?thesis by (simp add: e weighted_square_def)
  qed
  have "sum_list (map ?sq (triples_of tab)) = sum ?sq (set (triples_of tab))"
    using distinct_triples_of [OF dt] by (rule sum_list_distinct_conv_sum_set)
  also have "\<dots> = sum ?sq (fst ` set ?E)"
    by (rule sum.mono_neutral_right [OF _ sub]) (use neutral in auto)
  also have "\<dots> = sum (\<lambda>e. ?sq (fst e)) (set ?E)"
    using inj by (simp add: sum.reindex)
  also have "\<dots> = sum ?ws (set ?E)"
    by (rule sum.cong) (use entry in auto)
  also have "\<dots> = sum_list (map ?ws ?E)"
    using dE' by (rule sum_list_distinct_conv_sum_set [symmetric])
  finally show "flux_term ?z params sensitivity difference weights_flux weights_season
      weights_region = Inr (sum_list (map ?ws ?E))"
    using val by simp
next
  have ok: "list_all (triple_ok params sensitivity difference
                         weights_flux weights_season weights_region) (triples_of tab)"
    using valid by (simp add: valid_flux_data_def params tab)
  show "\<forall>t\<in>set (triples_of tab). case t of (fluxname, season, region) \<Rightarrow>
            bias_get difference fluxname season region \<noteq> NaN \<longrightarrow>
            flux_change (replicate (length params) 0) params sensitivity fluxname season region
              = Inr 0"
  proof (intro ballI)
    fix t assume t: "t \<in> set (triples_of tab)"
    obtain f s r where ft: "t = (f, s, r)" by (cases t)
    from ok t have tok: "triple_ok params sensitivity difference
                         weights_flux weights_season weights_region (f, s, r)"
      by (simp add: list_all_iff ft)
    show "case t of (fluxname, season, region) \<Rightarrow>
            bias_get difference fluxname season region \<noteq> NaN \<longrightarrow>
            flux_change (replicate (length params) 0) params sensitivity fluxname season region
              = Inr 0"
    proof (cases "bias_get difference f s r")
      case NaN
      then show ?thesis by (simp add: ft)
    next
      case (Num b)
      with tok have "list_all (\<lambda>p. succeeds (coefficient sensitivity p f s r)) params"
        by (simp add: triple_ok_def)
      from flux_change_at_zero [OF this] show ?thesis by (simp add: ft)
    qed
  qed
qed

theorem flux_term_at_zero_witness:
  "valid_flux_data (replicate (length [''a'', ''b'']) 0) [''a'', ''b'']
       [(''a'', [(''tas'', [(''ALL'', [(''Global'', [-10]), (''Arctic'', [1])])]),
                (''pr'', [(''ALL'', [(''Global'', [3])])])]),
        (''b'', [(''tas'', [(''ALL'', [(''Global'', [2])])]),
                (''pr'', [(''ALL'', [(''Global'', [1])])])])]
       [(''tas'', [(''ALL'', [(''Global'', Num (1/2)), (''Tropics'', NaN)])]),
        (''pr'', [(''ALL'', [(''Global'', Num 2)])])]
       [(''tas'', 1), (''pr'', 2)] [(''ALL'', 1)] [(''Global'', 3)] \<and>
   distinct_keys3 [(''tas'', [(''ALL'', [(''Global'', [-10]), (''Arctic'', [1::real])])]),
        (''pr'', [(''ALL'', [(''Global'', [3])])])] \<and>
   distinct_keys3 [(''tas'', [(''ALL'', [(''Global'', Num (1/2)), (''Tropics'', NaN)])]),
        (''pr'', [(''ALL'', [(''Global'', Num 2)])])] \<and>
   bias_covered [''a'', ''b'']
       [(''a'', [(''tas'', [(''ALL'', [(''Global'', [-10]), (''Arctic'', [1])])]),
                (''pr'', [(''ALL'', [(''Global'', [3])])])]),
        (''b'', [(''tas'', [(''ALL'', [(''Global'', [2])])]),
                (''pr'', [(''ALL'', [(''Global'', [1])])])])]
       [(''tas'', [(''ALL'', [(''Global'', Num (1/2)), (''Tropics'', NaN)])]),
        (''pr'', [(''ALL'', [(''Global'', Num 2)])])] \<and>
   flux_term (replicate (length [''a'', ''b'']) 0) [''a'', ''b'']
       [(''a'', [(''tas'', [(''ALL'', [(''Global'', [-10]), (''Arctic'', [1])])]),
                (''pr'', [(''ALL'', [(''Global'', [3])])])]),
        (''b'', [(''tas'', [(''ALL'', [(''Global'', [2])])]),
                (''pr'', [(''ALL'', [(''Global'', [1])])])])]
       [(''tas'', [(''ALL'', [(''Global'', Num (1/2)), (''Tropics'', NaN)])]),
        (''pr'', [(''ALL'', [(''Global'', Num 2)])])]
       [(''tas'', 1), (''pr'', 2)] [(''ALL'', 1)] [(''Global'', 3)] = Inr (99/4)"
proof -
  have v: "valid_flux_data (replicate (length [''a'', ''b'']) 0) [''a'', ''b'']
       [(''a'', [(''tas'', [(''ALL'', [(''Global'', [-10]), (''Arctic'', [1])])]),
                (''pr'', [(''ALL'', [(''Global'', [3])])])]),
        (''b'', [(''tas'', [(''ALL'', [(''Global'', [2])])]),
                (''pr'', [(''ALL'', [(''Global'', [1])])])])]
       [(''tas'', [(''ALL'', [(''Global'', Num (1/2)), (''Tropics'', NaN)])]),
        (''pr'', [(''ALL'', [(''Global'', Num 2)])])]
       [(''tas'', 1), (''pr'', 2)] [(''ALL'', 1)] [(''Global'', 3)]"
    by (simp add: valid_flux_data_def nonneg_weights_def triples_of_def triple_ok_def
          bias_get_def dict_get_def succeeds_def coefficient_def lookup_def index_def
          del: not_None_eq)
  have t: "map_of [(''a'', [(''tas'', [(''ALL'', [(''Global'', [-10]), (''Arctic'', [1])])]),
                (''pr'', [(''ALL'', [(''Global'', [3])])])]),
        (''b'', [(''tas'', [(''ALL'', [(''Global'', [2])])]),
                (''pr'', [(''ALL'', [(''Global'', [1])])])])] ''a'' = Some [(''tas'', [(''ALL'', [(''Global'', [-10]), (''Arctic'', [1::real])])]),
        (''pr'', [(''ALL'', [(''Global'', [3])])])]"
    by simp
  have dt: "distinct_keys3 [(''tas'', [(''ALL'', [(''Global'', [-10]), (''Arctic'', [1::real])])]),
        (''pr'', [(''ALL'', [(''Global'', [3])])])]"
    by (simp add: distinct_keys3_def)
  have dd: "distinct_keys3 [(''tas'', [(''ALL'', [(''Global'', Num (1/2)), (''Tropics'', NaN)])]),
        (''pr'', [(''ALL'', [(''Global'', Num 2)])])]"
    by (simp add: distinct_keys3_def)
  have be: "bias_entries [(''tas'', [(''ALL'', [(''Global'', Num (1/2)), (''Tropics'', NaN)])]),
        (''pr'', [(''ALL'', [(''Global'', Num 2)])])] = [((''tas'', ''ALL'', ''Global''), 1/2), ((''pr'', ''ALL'', ''Global''), 2)]"
    by (simp add: bias_entries_def triples_of_def bias_get_def dict_get_def
          List.map_filter_simps)
  have c: "bias_covered [''a'', ''b'']
       [(''a'', [(''tas'', [(''ALL'', [(''Global'', [-10]), (''Arctic'', [1])])]),
                (''pr'', [(''ALL'', [(''Global'', [3])])])]),
        (''b'', [(''tas'', [(''ALL'', [(''Global'', [2])])]),
                (''pr'', [(''ALL'', [(''Global'', [1])])])])]
       [(''tas'', [(''ALL'', [(''Global'', Num (1/2)), (''Tropics'', NaN)])]),
        (''pr'', [(''ALL'', [(''Global'', Num 2)])])]"
    unfolding bias_covered_def be by (simp add: triples_of_def)
  from flux_term_at_zero [OF v refl t dt dd c]
  have "flux_term (replicate (length [''a'', ''b'']) 0) [''a'', ''b'']
       [(''a'', [(''tas'', [(''ALL'', [(''Global'', [-10]), (''Arctic'', [1])])]),
                (''pr'', [(''ALL'', [(''Global'', [3])])])]),
        (''b'', [(''tas'', [(''ALL'', [(''Global'', [2])])]),
                (''pr'', [(''ALL'', [(''Global'', [1])])])])]
       [(''tas'', [(''ALL'', [(''Global'', Num (1/2)), (''Tropics'', NaN)])]),
        (''pr'', [(''ALL'', [(''Global'', Num 2)])])]
       [(''tas'', 1), (''pr'', 2)] [(''ALL'', 1)] [(''Global'', 3)] = Inr (99/4)"
    unfolding be by (simp add: weighted_square_def dict_get_def power2_eq_square)
  with v dt dd c show ?thesis by (simp only: simp_thms)
qed

section \<open>Sensitivity entries that do not enter the score\<close>

lemma coefficient_add_sensitivity_other:
  assumes "p \<noteq> q \<or> f' \<noteq> f \<or> s' \<noteq> s \<or> r' \<noteq> r"
  shows "coefficient (add_sensitivity q f s r c sensitivity) p f' s' r' =
         coefficient sensitivity p f' s' r'"
  using assms
  by (auto simp: coefficient_def add_sensitivity_def lookup_def dict_get_def update_conv'
        Let_def split: option.splits)

lemma flux_change_add_sensitivity:
  assumes "(f', s', r') \<noteq> (f, s, r)"
  shows "flux_change changes params (add_sensitivity q f s r c sensitivity) f' s' r' =
         flux_change changes params sensitivity f' s' r'"
proof -
  have "coefficient (add_sensitivity q f s r c sensitivity) p f' s' r' =
        coefficient sensitivity p f' s' r'" for p
    using assms by (intro coefficient_add_sensitivity_other) auto
  then show ?thesis by (simp add: flux_change_def)
qed

lemma flux_step_add_sensitivity:
  assumes "t \<noteq> (f, s, r) \<or> bias_get difference f s r = NaN"
  shows "flux_step changes params (add_sensitivity q f s r c sensitivity) difference
           weights_flux weights_season weights_region acc t =
         flux_step changes params sensitivity difference
           weights_flux weights_season weights_region acc t"
proof -
  obtain f' s' r' where t: "t = (f', s', r')" by (cases t)
  show ?thesis
  proof (cases "t = (f, s, r)")
    case True
    with assms have "bias_get difference f' s' r' = NaN" by (auto simp: t)
    then show ?thesis by (simp add: flux_step_def t)
  next
    case False
    then have "(f', s', r') \<noteq> (f, s, r)" by (simp add: t)
    from flux_change_add_sensitivity [OF this] show ?thesis
      by (cases "bias_get difference f' s' r'") (simp_all add: flux_step_def t)
  qed
qed

lemma fold_err_filter_skip:
  assumes "\<And>a. step a x0 = Inr a"
  shows "fold_err step a ts = fold_err step a (filter (\<lambda>t. t \<noteq> x0) ts)"
  using assms by (induction ts arbitrary: a) (auto split: sum.splits)

lemma filter_concat_map_update:
  assumes "case map_of al k of
             Some old \<Rightarrow> filter P (G (k, v)) = filter P (G (k, old))
           | None \<Rightarrow> filter P (G (k, v)) = []"
  shows "filter P (concat (map G (AList.update k v al))) = filter P (concat (map G al))"
  using assms by (induction al) (auto split: if_splits)

lemma triples_of_update:
  "filter (\<lambda>t. t \<noteq> (f, s, r))
     (triples_of (AList.update f
        (AList.update s (AList.update r v (dict_get (dict_get tab f []) s []))
           (dict_get tab f [])) tab)) =
   filter (\<lambda>t. t \<noteq> (f, s, r)) (triples_of tab)"
proof -
  let ?P = "\<lambda>t. t \<noteq> (f, s, r)"
  let ?G3 = "\<lambda>f' s'. \<lambda>(region, _ :: 'a). (f', s', region)"
  let ?G2 = "\<lambda>f'. \<lambda>(season, regions). map (?G3 f' season) regions"
  let ?G1 = "\<lambda>(fluxname, seasons). concat (map (?G2 fluxname) seasons)"
  have l3: "filter ?P (map (?G3 f s) (AList.update r v rs)) = filter ?P (map (?G3 f s) rs)" for rs
    by (induction rs) auto
  have l2: "filter ?P (concat (map (?G2 f) (AList.update s (AList.update r v (dict_get ss s [])) ss)))
            = filter ?P (concat (map (?G2 f) ss))" for ss
    by (rule filter_concat_map_update) (auto simp: dict_get_def l3 split: option.splits)
  have "filter ?P (concat (map ?G1 (AList.update f
           (AList.update s (AList.update r v (dict_get (dict_get tab f []) s []))
              (dict_get tab f [])) tab)))
        = filter ?P (concat (map ?G1 tab))"
    by (rule filter_concat_map_update) (auto simp: dict_get_def l2 [unfolded dict_get_def] split: option.splits)
  then show ?thesis by (simp add: triples_of_def)
qed

lemma map_of_add_sensitivity:
  "map_of (add_sensitivity q f s r c sensitivity) p =
     (if p = q
      then Some (AList.update f
             (AList.update s
                (AList.update r [c] (dict_get (dict_get (dict_get sensitivity q []) f []) s []))
                (dict_get (dict_get sensitivity q []) f []))
             (dict_get sensitivity q []))
      else map_of sensitivity p)"
  by (simp add: add_sensitivity_def update_conv' Let_def)

text \<open>
  C4. A sensitivity entry whose triple has no bias entry, or an undefined one, adds
  nothing to the score. The body of the loop leaves \<open>total_difference\<close> as it is at such
  a triple, without any lookup in the sensitivity table or the weights, so without
  error; and for every change vector and all model data in which the first parameter
  has a sensitivity table, the objective function gives the same result (the same
  score, or the same error) after such an entry is added for any parameter.
\<close>

theorem missing_bias_contributes_nothing:
  assumes params: "params = p0 # ps" and tab: "map_of sensitivity p0 \<noteq> None"
    and nan: "bias_get difference f s r = NaN"
  shows "flux_step changes params sensitivity' difference weights_flux weights_season
           weights_region total_difference (f, s, r) = Inr total_difference \<and>
         objective_function changes params values reference_pars penalty
           (add_sensitivity q f s r c sensitivity) difference
           weights_flux weights_season weights_region =
         objective_function changes params values reference_pars penalty
           sensitivity difference weights_flux weights_season weights_region"
proof
  show skip: "flux_step changes params sensitivity' difference weights_flux weights_season
           weights_region total_difference (f, s, r) = Inr total_difference"
    for sensitivity' total_difference
    using nan by (simp add: flux_step_def)
  let ?step' = "flux_step changes params (add_sensitivity q f s r c sensitivity) difference
           weights_flux weights_season weights_region"
  let ?step = "flux_step changes params sensitivity difference
           weights_flux weights_season weights_region"
  have same: "?step' = ?step"
    using flux_step_add_sensitivity [of _ f s r difference] nan by (intro ext) simp
  from tab obtain t0 where t0: "map_of sensitivity p0 = Some t0" by auto
  have d: "dict_get sensitivity p0 [] = t0" by (simp add: dict_get_def t0)
  let ?t1 = "AList.update f
             (AList.update s (AList.update r [c] (dict_get (dict_get t0 f []) s []))
                (dict_get t0 f [])) t0"
  have "fold_err ?step 0 (triples_of ?t1) =
        fold_err ?step 0 (filter (\<lambda>t. t \<noteq> (f, s, r)) (triples_of ?t1))"
    by (rule fold_err_filter_skip) (rule skip)
  also have "\<dots> = fold_err ?step 0 (filter (\<lambda>t. t \<noteq> (f, s, r)) (triples_of t0))"
    by (simp only: triples_of_update)
  also have "\<dots> = fold_err ?step 0 (triples_of t0)"
    by (rule fold_err_filter_skip [symmetric]) (rule skip)
  finally have folds: "fold_err ?step 0 (triples_of ?t1) = fold_err ?step 0 (triples_of t0)" .
  have i0: "index params 0 = Inr p0" by (simp add: params index_def)
  have "flux_term changes params (add_sensitivity q f s r c sensitivity) difference
            weights_flux weights_season weights_region =
        flux_term changes params sensitivity difference
            weights_flux weights_season weights_region"
  proof (cases "q = p0")
    case True
    have "map_of (add_sensitivity p0 f s r c sensitivity) p0 = Some ?t1"
      by (simp add: map_of_add_sensitivity d)
    with folds show ?thesis
      by (simp add: flux_term_def i0 lookup_def same [unfolded True] True t0)
  next
    case False
    then have "map_of (add_sensitivity q f s r c sensitivity) p0 = Some t0"
      by (simp add: map_of_add_sensitivity t0)
    then show ?thesis
      by (simp add: flux_term_def i0 lookup_def same t0)
  qed
  then show "objective_function changes params values reference_pars penalty
           (add_sensitivity q f s r c sensitivity) difference
           weights_flux weights_season weights_region =
         objective_function changes params values reference_pars penalty
           sensitivity difference weights_flux weights_season weights_region"
    by (simp add: objective_function_def)
qed

lemma objective_function_add_sensitivity_other:
  assumes params: "params = p0 # ps" and q: "q \<noteq> p0"
    and new: "(f, s, r) \<notin> set (triples_of (dict_get sensitivity p0 []))"
  shows "objective_function changes params values reference_pars penalty
           (add_sensitivity q f s r c sensitivity) difference
           weights_flux weights_season weights_region =
         objective_function changes params values reference_pars penalty
           sensitivity difference weights_flux weights_season weights_region"
proof -
  let ?step' = "flux_step changes params (add_sensitivity q f s r c sensitivity) difference
           weights_flux weights_season weights_region"
  let ?step = "flux_step changes params sensitivity difference
           weights_flux weights_season weights_region"
  have i0: "index params 0 = Inr p0" by (simp add: params index_def)
  have "flux_term changes params (add_sensitivity q f s r c sensitivity) difference
            weights_flux weights_season weights_region =
        flux_term changes params sensitivity difference
            weights_flux weights_season weights_region"
  proof (cases "map_of sensitivity p0")
    case None
    with q have "map_of (add_sensitivity q f s r c sensitivity) p0 = None"
      by (simp add: map_of_add_sensitivity)
    with None show ?thesis
      by (simp add: flux_term_def i0 lookup_def)
  next
    case (Some t0)
    with new have "(f, s, r) \<notin> set (triples_of t0)" by (simp add: dict_get_def)
    then have "?step' a t = ?step a t" if "t \<in> set (triples_of t0)" for a t
      using that by (intro flux_step_add_sensitivity) auto
    then have "fold_err ?step' 0 (triples_of t0) = fold_err ?step 0 (triples_of t0)"
      by (rule fold_err_cong)
    moreover from q Some have "map_of (add_sensitivity q f s r c sensitivity) p0 = Some t0"
      by (simp add: map_of_add_sensitivity)
    ultimately show ?thesis
      using Some by (simp add: flux_term_def i0 lookup_def)
  qed
  then show ?thesis by (simp add: objective_function_def)
qed

lemma bias_get_set_bias:
  "bias_get (set_bias f s r b difference) f' s' r' =
     (if (f', s', r') = (f, s, r) then b else bias_get difference f' s' r')"
  by (auto simp: bias_get_def set_bias_def dict_get_def update_conv' Let_def
        split: option.splits)

lemma flux_term_bias_cong:
  assumes params: "params = p0 # ps"
    and agree: "\<And>f s r. (f, s, r) \<in> set (triples_of (dict_get sensitivity p0 []))
                  \<Longrightarrow> bias_get difference' f s r = bias_get difference f s r"
  shows "flux_term changes params sensitivity difference'
            weights_flux weights_season weights_region =
         flux_term changes params sensitivity difference
            weights_flux weights_season weights_region"
proof -
  have i0: "index params 0 = Inr p0" by (simp add: params index_def)
  show ?thesis
  proof (cases "map_of sensitivity p0")
    case None
    then show ?thesis by (simp add: flux_term_def i0 lookup_def)
  next
    case (Some t0)
    have "flux_step changes params sensitivity difference'
            weights_flux weights_season weights_region a t =
          flux_step changes params sensitivity difference
            weights_flux weights_season weights_region a t"
      if "t \<in> set (triples_of t0)" for a t
    proof -
      obtain f s r where t: "t = (f, s, r)" by (cases t)
      with that Some have "(f, s, r) \<in> set (triples_of (dict_get sensitivity p0 []))"
        by (simp add: dict_get_def)
      from agree [OF this] show ?thesis by (simp add: flux_step_def t)
    qed
    then have "fold_err (flux_step changes params sensitivity difference'
                 weights_flux weights_season weights_region) 0 (triples_of t0) =
               fold_err (flux_step changes params sensitivity difference
                 weights_flux weights_season weights_region) 0 (triples_of t0)"
      by (rule fold_err_cong)
    with Some show ?thesis by (simp add: flux_term_def i0 lookup_def)
  qed
qed

text \<open>
  C9. The flux term visits only the triples of the sensitivity table of the first
  parameter, and the bias table enters the score only through its entries at those
  triples: two bias tables that agree there give the same result of the objective
  function. So a triple that is not in the first parameter's table contributes nothing,
  for any change vector: setting its bias entry to any number leaves the result
  unchanged, also when a sensitivity entry for the triple is added to the table of
  another parameter.
\<close>

theorem only_first_parameter_triples_count:
  assumes params: "params = p0 # ps"
    and new: "(f, s, r) \<notin> set (triples_of (dict_get sensitivity p0 []))"
  shows "objective_function changes params values reference_pars penalty
           sensitivity (set_bias f s r b difference)
           weights_flux weights_season weights_region =
         objective_function changes params values reference_pars penalty
           sensitivity difference weights_flux weights_season weights_region \<and>
         (q \<noteq> p0 \<longrightarrow>
            objective_function changes params values reference_pars penalty
              (add_sensitivity q f s r c sensitivity) (set_bias f s r b difference)
              weights_flux weights_season weights_region =
            objective_function changes params values reference_pars penalty
              sensitivity difference weights_flux weights_season weights_region) \<and>
         ((\<forall>t\<in>set (triples_of (dict_get sensitivity p0 [])).
              case t of (f', s', r') \<Rightarrow>
                bias_get difference' f' s' r' = bias_get difference f' s' r') \<longrightarrow>
            objective_function changes params values reference_pars penalty
              sensitivity difference' weights_flux weights_season weights_region =
            objective_function changes params values reference_pars penalty
              sensitivity difference weights_flux weights_season weights_region)"
proof (intro conjI impI)
  have cong: "objective_function changes params values reference_pars penalty
              sensitivity d' weights_flux weights_season weights_region =
            objective_function changes params values reference_pars penalty
              sensitivity difference weights_flux weights_season weights_region"
    if "\<And>f s r. (f, s, r) \<in> set (triples_of (dict_get sensitivity p0 []))
                  \<Longrightarrow> bias_get d' f s r = bias_get difference f s r" for d'
    using flux_term_bias_cong [OF params that] by (simp add: objective_function_def)
  show set: "objective_function changes params values reference_pars penalty
           sensitivity (set_bias f s r b difference)
           weights_flux weights_season weights_region =
         objective_function changes params values reference_pars penalty
           sensitivity difference weights_flux weights_season weights_region"
  proof (rule cong)
    fix f' s' r'
    assume "(f', s', r') \<in> set (triples_of (dict_get sensitivity p0 []))"
    with new have ne: "(f', s', r') \<noteq> (f, s, r)" by auto
    show "bias_get (set_bias f s r b difference) f' s' r' = bias_get difference f' s' r'"
      by (simp only: bias_get_set_bias ne if_False)
  qed
  show "objective_function changes params values reference_pars penalty
              (add_sensitivity q f s r c sensitivity) (set_bias f s r b difference)
              weights_flux weights_season weights_region =
            objective_function changes params values reference_pars penalty
              sensitivity difference weights_flux weights_season weights_region"
    if "q \<noteq> p0"
    using objective_function_add_sensitivity_other [OF params that new] set by simp
  show "objective_function changes params values reference_pars penalty
              sensitivity difference' weights_flux weights_season weights_region =
            objective_function changes params values reference_pars penalty
              sensitivity difference weights_flux weights_season weights_region"
    if "\<forall>t\<in>set (triples_of (dict_get sensitivity p0 [])).
              case t of (f', s', r') \<Rightarrow>
                bias_get difference' f' s' r' = bias_get difference f' s' r'"
    using that by (intro cong) auto
qed

theorem missing_bias_contributes_nothing_witness:
  "[''a'', ''b''] = ''a'' # [''b''] \<and>
   map_of [(''a'', [(''tas'', [(''ALL'', [(''Global'', [-10]), (''Arctic'', [1])])]),
                (''pr'', [(''ALL'', [(''Global'', [3])])])]),
        (''b'', [(''tas'', [(''ALL'', [(''Global'', [2])])]),
                (''pr'', [(''ALL'', [(''Global'', [1])])])])] ''a'' \<noteq> None \<and>
   bias_get [(''tas'', [(''ALL'', [(''Global'', Num (1/2)), (''Tropics'', NaN)])]),
        (''pr'', [(''ALL'', [(''Global'', Num 2)])])] ''rsnt'' ''ALL'' ''Global'' = NaN \<and>
   objective_function [1/10, -1/5] [''a'', ''b''] [(''a'', 2), (''b'', 5)] [(''a'', 2), (''b'', 4)] (1/100)
       (add_sensitivity ''a'' ''rsnt'' ''ALL'' ''Global'' 7
          [(''a'', [(''tas'', [(''ALL'', [(''Global'', [-10]), (''Arctic'', [1])])]),
                (''pr'', [(''ALL'', [(''Global'', [3])])])]),
        (''b'', [(''tas'', [(''ALL'', [(''Global'', [2])])]),
                (''pr'', [(''ALL'', [(''Global'', [1])])])])])
       [(''tas'', [(''ALL'', [(''Global'', Num (1/2)), (''Tropics'', NaN)])]),
        (''pr'', [(''ALL'', [(''Global'', Num 2)])])]
       [(''tas'', 1), (''pr'', 2), (''rsnt'', 1)] [(''ALL'', 1)] [(''Global'', 3)] = Inr (Fin (1155617/40000))"
proof -
  have t: "map_of [(''a'', [(''tas'', [(''ALL'', [(''Global'', [-10]), (''Arctic'', [1])])]),
                (''pr'', [(''ALL'', [(''Global'', [3])])])]),
        (''b'', [(''tas'', [(''ALL'', [(''Global'', [2])])]),
                (''pr'', [(''ALL'', [(''Global'', [1])])])])] ''a'' \<noteq> None"
    by simp
  have n: "bias_get [(''tas'', [(''ALL'', [(''Global'', Num (1/2)), (''Tropics'', NaN)])]),
        (''pr'', [(''ALL'', [(''Global'', Num 2)])])] ''rsnt'' ''ALL'' ''Global'' = NaN"
    by (simp add: bias_get_def dict_get_def)
  have e: "objective_function [1/10, -1/5] [''a'', ''b''] [(''a'', 2), (''b'', 5)] [(''a'', 2), (''b'', 4)] (1/100)
       [(''a'', [(''tas'', [(''ALL'', [(''Global'', [-10]), (''Arctic'', [1])])]),
                (''pr'', [(''ALL'', [(''Global'', [3])])])]),
        (''b'', [(''tas'', [(''ALL'', [(''Global'', [2])])]),
                (''pr'', [(''ALL'', [(''Global'', [1])])])])]
       [(''tas'', [(''ALL'', [(''Global'', Num (1/2)), (''Tropics'', NaN)])]),
        (''pr'', [(''ALL'', [(''Global'', Num 2)])])]
       [(''tas'', 1), (''pr'', 2), (''rsnt'', 1)] [(''ALL'', 1)] [(''Global'', 3)] = Inr (Fin (1155617/40000))"
    by (simp add: objective_function_def flux_term_def triples_of_def
          flux_step_def bias_get_def dict_get_def param_difference_def lookup_def
          flux_change_def coefficient_def enumerate_eq_zip index_def np_div_def
          power2_eq_square)
  note eq = missing_bias_contributes_nothing [OF refl t n, THEN conjunct2]
  from e have "objective_function [1/10, -1/5] [''a'', ''b''] [(''a'', 2), (''b'', 5)] [(''a'', 2), (''b'', 4)] (1/100)
       (add_sensitivity ''a'' ''rsnt'' ''ALL'' ''Global'' 7
          [(''a'', [(''tas'', [(''ALL'', [(''Global'', [-10]), (''Arctic'', [1])])]),
                (''pr'', [(''ALL'', [(''Global'', [3])])])]),
        (''b'', [(''tas'', [(''ALL'', [(''Global'', [2])])]),
                (''pr'', [(''ALL'', [(''Global'', [1])])])])])
       [(''tas'', [(''ALL'', [(''Global'', Num (1/2)), (''Tropics'', NaN)])]),
        (''pr'', [(''ALL'', [(''Global'', Num 2)])])]
       [(''tas'', 1), (''pr'', 2), (''rsnt'', 1)] [(''ALL'', 1)] [(''Global'', 3)] = Inr (Fin (1155617/40000))"
    by (simp only: eq)
  with t n show ?thesis by (simp only: simp_thms)
qed

theorem only_first_parameter_triples_count_witness:
  "[''a'', ''b''] = ''a'' # [''b''] \<and>
   (''rsnt'', ''ALL'', ''Global'') \<notin> set (triples_of (dict_get
       [(''a'', [(''tas'', [(''ALL'', [(''Global'', [-10]), (''Arctic'', [1])])]),
                (''pr'', [(''ALL'', [(''Global'', [3])])])]),
        (''b'', [(''tas'', [(''ALL'', [(''Global'', [2])])]),
                (''pr'', [(''ALL'', [(''Global'', [1])])])])] ''a'' [])) \<and>
   ''b'' \<noteq> ''a'' \<and>
   bias_get (set_bias ''rsnt'' ''ALL'' ''Global'' (Num 3)
       [(''tas'', [(''ALL'', [(''Global'', Num (1/2)), (''Tropics'', NaN)])]),
        (''pr'', [(''ALL'', [(''Global'', Num 2)])])]) ''rsnt'' ''ALL'' ''Global'' = Num 3 \<and>
   map_of [(''tas'', 1), (''pr'', 2), (''rsnt'', 1 :: real)] ''rsnt'' = Some 1 \<and>
   objective_function [1/10, -1/5] [''a'', ''b''] [(''a'', 2), (''b'', 5)] [(''a'', 2), (''b'', 4)] (1/100)
       [(''a'', [(''tas'', [(''ALL'', [(''Global'', [-10]), (''Arctic'', [1])])]),
                (''pr'', [(''ALL'', [(''Global'', [3])])])]),
        (''b'', [(''tas'', [(''ALL'', [(''Global'', [2])])]),
                (''pr'', [(''ALL'', [(''Global'', [1])])])])]
       (set_bias ''rsnt'' ''ALL'' ''Global'' (Num 3)
          [(''tas'', [(''ALL'', [(''Global'', Num (1/2)), (''Tropics'', NaN)])]),
        (''pr'', [(''ALL'', [(''Global'', Num 2)])])])
       [(''tas'', 1), (''pr'', 2), (''rsnt'', 1)] [(''ALL'', 1)] [(''Global'', 3)] = Inr (Fin (1155617/40000)) \<and>
   objective_function [1/10, -1/5] [''a'', ''b''] [(''a'', 2), (''b'', 5)] [(''a'', 2), (''b'', 4)] (1/100)
       (add_sensitivity ''b'' ''rsnt'' ''ALL'' ''Global'' 7
          [(''a'', [(''tas'', [(''ALL'', [(''Global'', [-10]), (''Arctic'', [1])])]),
                (''pr'', [(''ALL'', [(''Global'', [3])])])]),
        (''b'', [(''tas'', [(''ALL'', [(''Global'', [2])])]),
                (''pr'', [(''ALL'', [(''Global'', [1])])])])])
       (set_bias ''rsnt'' ''ALL'' ''Global'' (Num 3)
          [(''tas'', [(''ALL'', [(''Global'', Num (1/2)), (''Tropics'', NaN)])]),
        (''pr'', [(''ALL'', [(''Global'', Num 2)])])])
       [(''tas'', 1), (''pr'', 2), (''rsnt'', 1)] [(''ALL'', 1)] [(''Global'', 3)] = Inr (Fin (1155617/40000))"
proof -
  have q: "''b'' \<noteq> ''a''" by simp
  have t: "(''rsnt'', ''ALL'', ''Global'') \<notin> set (triples_of (dict_get
       [(''a'', [(''tas'', [(''ALL'', [(''Global'', [-10]), (''Arctic'', [1])])]),
                (''pr'', [(''ALL'', [(''Global'', [3])])])]),
        (''b'', [(''tas'', [(''ALL'', [(''Global'', [2])])]),
                (''pr'', [(''ALL'', [(''Global'', [1])])])])] ''a'' []))"
    by (simp add: dict_get_def triples_of_def)
  have n: "bias_get (set_bias ''rsnt'' ''ALL'' ''Global'' (Num 3)
       [(''tas'', [(''ALL'', [(''Global'', Num (1/2)), (''Tropics'', NaN)])]),
        (''pr'', [(''ALL'', [(''Global'', Num 2)])])]) ''rsnt'' ''ALL'' ''Global'' = Num 3"
    by (simp add: bias_get_def set_bias_def dict_get_def)
  have w: "map_of [(''tas'', 1), (''pr'', 2), (''rsnt'', 1 :: real)] ''rsnt'' = Some 1"
    by simp
  have e: "objective_function [1/10, -1/5] [''a'', ''b''] [(''a'', 2), (''b'', 5)] [(''a'', 2), (''b'', 4)] (1/100)
       [(''a'', [(''tas'', [(''ALL'', [(''Global'', [-10]), (''Arctic'', [1])])]),
                (''pr'', [(''ALL'', [(''Global'', [3])])])]),
        (''b'', [(''tas'', [(''ALL'', [(''Global'', [2])])]),
                (''pr'', [(''ALL'', [(''Global'', [1])])])])]
       [(''tas'', [(''ALL'', [(''Global'', Num (1/2)), (''Tropics'', NaN)])]),
        (''pr'', [(''ALL'', [(''Global'', Num 2)])])]
       [(''tas'', 1), (''pr'', 2), (''rsnt'', 1)] [(''ALL'', 1)] [(''Global'', 3)] = Inr (Fin (1155617/40000))"
    by (simp add: objective_function_def flux_term_def triples_of_def
          flux_step_def bias_get_def dict_get_def param_difference_def lookup_def
          flux_change_def coefficient_def enumerate_eq_zip index_def np_div_def
          power2_eq_square)
  note eq = only_first_parameter_triples_count [OF refl t]
  from e have e1: "objective_function [1/10, -1/5] [''a'', ''b''] [(''a'', 2), (''b'', 5)] [(''a'', 2), (''b'', 4)] (1/100)
       [(''a'', [(''tas'', [(''ALL'', [(''Global'', [-10]), (''Arctic'', [1])])]),
                (''pr'', [(''ALL'', [(''Global'', [3])])])]),
        (''b'', [(''tas'', [(''ALL'', [(''Global'', [2])])]),
                (''pr'', [(''ALL'', [(''Global'', [1])])])])]
       (set_bias ''rsnt'' ''ALL'' ''Global'' (Num 3)
          [(''tas'', [(''ALL'', [(''Global'', Num (1/2)), (''Tropics'', NaN)])]),
        (''pr'', [(''ALL'', [(''Global'', Num 2)])])])
       [(''tas'', 1), (''pr'', 2), (''rsnt'', 1)] [(''ALL'', 1)] [(''Global'', 3)] = Inr (Fin (1155617/40000))"
    by (simp only: eq [THEN conjunct1])
  from e have e2: "objective_function [1/10, -1/5] [''a'', ''b''] [(''a'', 2), (''b'', 5)] [(''a'', 2), (''b'', 4)] (1/100)
       (add_sensitivity ''b'' ''rsnt'' ''ALL'' ''Global'' 7
          [(''a'', [(''tas'', [(''ALL'', [(''Global'', [-10]), (''Arctic'', [1])])]),
                (''pr'', [(''ALL'', [(''Global'', [3])])])]),
        (''b'', [(''tas'', [(''ALL'', [(''Global'', [2])])]),
                (''pr'', [(''ALL'', [(''Global'', [1])])])])])
       (set_bias ''rsnt'' ''ALL'' ''Global'' (Num 3)
          [(''tas'', [(''ALL'', [(''Global'', Num (1/2)), (''Tropics'', NaN)])]),
        (''pr'', [(''ALL'', [(''Global'', Num 2)])])])
       [(''tas'', 1), (''pr'', 2), (''rsnt'', 1)] [(''ALL'', 1)] [(''Global'', 3)] = Inr (Fin (1155617/40000))"
    by (simp only: eq [THEN conjunct2, THEN conjunct1, rule_format, OF q])
  from q t n w e1 e2 show ?thesis by (simp only: simp_thms)
qed

end
